theory Spec2Isabelle
  imports Complex_Main
begin

section \<open>Values of the host language\<close>

text \<open>
  The program is JavaScript running against a spreadsheet. A number is either \<open>NaN\<close> or a
  finite value; finite values are exact reals, so rounding, signed zero and the infinities of
  IEEE arithmetic are not part of the model (a division by zero yields \<open>NaN\<close> here).
  The doubles of the program add whole numbers exactly as long as the operands and the sum
  stay within \<open>2 ^ 53\<close> in absolute value; a statement whose conclusion depends on sums being
  exact (the succession of record numbers) is made for whole numbers within that bound.
\<close>

datatype jsnum = NaN | Fin real

instantiation jsnum :: "{plus, minus, times, inverse, uminus, ord}"
begin

fun plus_jsnum :: "jsnum \<Rightarrow> jsnum \<Rightarrow> jsnum" where
  "plus_jsnum (Fin a) (Fin b) = Fin (a + b)"
| "plus_jsnum _ _ = NaN"

fun minus_jsnum :: "jsnum \<Rightarrow> jsnum \<Rightarrow> jsnum" where
  "minus_jsnum (Fin a) (Fin b) = Fin (a - b)"
| "minus_jsnum _ _ = NaN"

fun times_jsnum :: "jsnum \<Rightarrow> jsnum \<Rightarrow> jsnum" where
  "times_jsnum (Fin a) (Fin b) = Fin (a * b)"
| "times_jsnum _ _ = NaN"

fun divide_jsnum :: "jsnum \<Rightarrow> jsnum \<Rightarrow> jsnum" where
  "divide_jsnum (Fin a) (Fin b) = (if b = 0 then NaN else Fin (a / b))"
| "divide_jsnum _ _ = NaN"

fun inverse_jsnum :: "jsnum \<Rightarrow> jsnum" where
  "inverse_jsnum (Fin a) = (if a = 0 then NaN else Fin (inverse a))"
| "inverse_jsnum NaN = NaN"

fun uminus_jsnum :: "jsnum \<Rightarrow> jsnum" where
  "uminus_jsnum (Fin a) = Fin (- a)"
| "uminus_jsnum NaN = NaN"

text \<open>Comparisons with \<open>NaN\<close> are false, as in the host language.\<close>

fun less_jsnum :: "jsnum \<Rightarrow> jsnum \<Rightarrow> bool" where
  "less_jsnum (Fin a) (Fin b) = (a < b)"
| "less_jsnum _ _ = False"

fun less_eq_jsnum :: "jsnum \<Rightarrow> jsnum \<Rightarrow> bool" where
  "less_eq_jsnum (Fin a) (Fin b) = (a \<le> b)"
| "less_eq_jsnum _ _ = False"

instance ..

end

text \<open>\<open>Math.abs\<close> on a number.\<close>

fun js_abs :: "jsnum \<Rightarrow> jsnum" where
  "js_abs (Fin a) = Fin \<bar>a\<bar>"
| "js_abs NaN = NaN"

text \<open>\<open>a !== b\<close> on two numbers: \<open>NaN\<close> differs from everything, itself included.\<close>

fun num_strict_neq :: "jsnum \<Rightarrow> jsnum \<Rightarrow> bool" where
  "num_strict_neq (Fin a) (Fin b) = (a \<noteq> b)"
| "num_strict_neq _ _ = True"

text \<open>
  A value as the program meets it in a form object or in a cell of a sheet: absent
  (\<open>undefined\<close>), \<open>null\<close>, a number, a string, or a \<open>Date\<close> object carrying its time
  value in milliseconds (\<open>NaN\<close> for an invalid date). Booleans do not occur in the fields the
  modelled functions read and are left out.
\<close>

datatype jsval = JUndefined | JNull | JNum jsnum | JStr string | JDate jsnum

text \<open>
  The conversions between strings and numbers or dates belong to the host language, not to
  the repository. They are parameters of the model: every theorem below holds for every
  implementation of them.
\<close>

record builtins =
  str_parseFloat :: "string \<Rightarrow> jsnum"
  str_toNumber :: "string \<Rightarrow> jsnum"
  str_dateParse :: "string \<Rightarrow> jsnum"
  num_toString :: "jsnum \<Rightarrow> string"
  date_toString :: "jsnum \<Rightarrow> string"

text \<open>Truthiness, as tested by \<open>!v\<close>, \<open>a || b\<close> and \<open>if (v)\<close>.\<close>

fun truthy :: "jsval \<Rightarrow> bool" where
  "truthy JUndefined = False"
| "truthy JNull = False"
| "truthy (JNum NaN) = False"
| "truthy (JNum (Fin x)) = (x \<noteq> 0)"
| "truthy (JStr s) = (s \<noteq> [])"
| "truthy (JDate t) = True"

text \<open>\<open>a || b\<close>.\<close>

definition js_or :: "jsval \<Rightarrow> jsval \<Rightarrow> jsval" where
  "js_or a b = (if truthy a then a else b)"

text \<open>\<open>a === b\<close>: two \<open>Date\<close> objects read from different places are different objects.\<close>

fun strict_eq :: "jsval \<Rightarrow> jsval \<Rightarrow> bool" where
  "strict_eq JUndefined JUndefined = True"
| "strict_eq JNull JNull = True"
| "strict_eq (JNum a) (JNum b) = (\<not> num_strict_neq a b)"
| "strict_eq (JStr s) (JStr t) = (s = t)"
| "strict_eq _ _ = False"

text \<open>\<open>parseFloat(v)\<close>: the argument is converted to a string first, and the string forms
  of \<open>undefined\<close>, \<open>null\<close> and of a date do not start with a number.\<close>

fun parseFloat :: "builtins \<Rightarrow> jsval \<Rightarrow> jsnum" where
  "parseFloat B (JNum n) = n"
| "parseFloat B (JStr s) = str_parseFloat B s"
| "parseFloat B _ = NaN"

text \<open>\<open>ToNumber(v)\<close>, as applied by \<open>Math.abs\<close> and by a comparison with a number.\<close>

fun toNumber :: "builtins \<Rightarrow> jsval \<Rightarrow> jsnum" where
  "toNumber B JUndefined = NaN"
| "toNumber B JNull = Fin 0"
| "toNumber B (JNum n) = n"
| "toNumber B (JStr s) = str_toNumber B s"
| "toNumber B (JDate t) = t"

text \<open>\<open>a + b\<close> on values: concatenation as soon as one side is a string or a date.\<close>

fun toStringV :: "builtins \<Rightarrow> jsval \<Rightarrow> string" where
  "toStringV B JUndefined = ''undefined''"
| "toStringV B JNull = ''null''"
| "toStringV B (JNum n) = num_toString B n"
| "toStringV B (JStr s) = s"
| "toStringV B (JDate t) = date_toString B t"

fun is_stringy :: "jsval \<Rightarrow> bool" where
  "is_stringy (JStr s) = True"
| "is_stringy (JDate t) = True"
| "is_stringy _ = False"

definition js_plus :: "builtins \<Rightarrow> jsval \<Rightarrow> jsval \<Rightarrow> jsval" where
  "js_plus B a b =
     (if is_stringy a \<or> is_stringy b then JStr (toStringV B a @ toStringV B b)
      else JNum (toNumber B a + toNumber B b))"

text \<open>\<open>new Date(v).getTime()\<close>: the time value of the date made from \<open>v\<close>.\<close>

fun time_clip :: "jsnum \<Rightarrow> jsnum" where
  "time_clip NaN = NaN"
| "time_clip (Fin x) =
     (if \<bar>x\<bar> > 8640000000000000 then NaN
      else Fin (if x \<ge> 0 then of_int \<lfloor>x\<rfloor> else of_int \<lceil>x\<rceil>))"

fun getTime :: "builtins \<Rightarrow> jsval \<Rightarrow> jsnum" where
  "getTime B (JDate t) = t"
| "getTime B (JStr s) = str_dateParse B s"
| "getTime B (JNum n) = time_clip n"
| "getTime B JNull = Fin 0"
| "getTime B JUndefined = NaN"

text \<open>A plain object: a dictionary from property names to values; a missing property reads
  as \<open>undefined\<close>.\<close>

type_synonym obj = "string \<rightharpoonup> jsval"

definition field :: "obj \<Rightarrow> string \<Rightarrow> jsval" where
  "field ob k = (case ob k of None \<Rightarrow> JUndefined | Some v \<Rightarrow> v)"

section \<open>The record store\<close>

text \<open>
  A sheet is a grid whose first row holds the column titles (text) and whose further rows
  hold the records, without gaps. \<open>getDataRange().getValues()\<close> returns the grid row by row;
  a cell without content reads as the empty string.
\<close>

record sheet =
  headers :: "string list"
  rows :: "jsval list list"

type_synonym spreadsheet = "string \<rightharpoonup> sheet"

definition getSheet :: "spreadsheet \<Rightarrow> string \<Rightarrow> sheet option" where
  "getSheet ss sheetName = ss sheetName"

text \<open>\<open>headers.indexOf(name)\<close>: the first position, or \<open>-1\<close>.\<close>

fun indexOf :: "string list \<Rightarrow> string \<Rightarrow> int" where
  "indexOf [] name = -1"
| "indexOf (h # hs) name =
     (if h = name then 0 else (let i = indexOf hs name in if i < 0 then -1 else i + 1))"

text \<open>\<open>row[i]\<close> on a row of the grid: \<open>undefined\<close> at index \<open>-1\<close>, the empty string where the
  row has no content.\<close>

definition get_col :: "jsval list \<Rightarrow> int \<Rightarrow> jsval" where
  "get_col row i =
     (if i < 0 then JUndefined else if nat i < length row then row ! nat i else JStr [])"

text \<open>Writing cell \<open>c\<close> (counted from 0) of a row; cells without content in between stay
  empty.\<close>

definition put_col :: "jsval list \<Rightarrow> nat \<Rightarrow> jsval \<Rightarrow> jsval list" where
  "put_col row c v = (row @ replicate (Suc c - length row) (JStr []))[c := v]"

text \<open>
  \<open>sheet.getRange(r, c).setValue(v)\<close>, rows and columns counted from 1. The range does not
  exist for a column below 1 and the call throws (\<open>None\<close>). Row 1 is the title row; the
  program only writes to record rows (\<open>r = index + 2\<close>), so a row below 2 does not occur and
  is answered like a throw. A cell holds the value that was written to it.
\<close>

definition setValue :: "sheet \<Rightarrow> nat \<Rightarrow> int \<Rightarrow> jsval \<Rightarrow> sheet option" where
  "setValue sh r c v =
     (if c < 1 \<or> r < 2 then None
      else Some (sh\<lparr>rows := (rows sh)[r - 2 := put_col (rows sh ! (r - 2)) (nat (c - 1)) v]\<rparr>))"

text \<open>What a cell holds after a value was stored in it: \<open>null\<close> and \<open>undefined\<close> leave the
  cell without content.\<close>

fun to_cell :: "jsval \<Rightarrow> jsval" where
  "to_cell JUndefined = JStr []"
| "to_cell JNull = JStr []"
| "to_cell v = v"

definition appendRow :: "sheet \<Rightarrow> jsval list \<Rightarrow> sheet" where
  "appendRow sh newRow = sh\<lparr>rows := rows sh @ [map to_cell newRow]\<rparr>"

text \<open>
  \<open>getLastColumn()\<close> and \<open>getLastRow()\<close>: the title row spans the columns in use, and a
  sheet without a title row has no content at all. \<open>getRange(1, 1, 1, getLastColumn())\<close>
  throws on a sheet without columns (\<open>None\<close>); otherwise its single row is the title row.
\<close>

definition getLastColumn :: "sheet \<Rightarrow> nat" where
  "getLastColumn sh = length (headers sh)"

definition getLastRow :: "sheet \<Rightarrow> nat" where
  "getLastRow sh = (if headers sh = [] then 0 else length (rows sh) + 1)"

definition getHeaderRow :: "sheet \<Rightarrow> string list option" where
  "getHeaderRow sh = (if getLastColumn sh < 1 then None else Some (headers sh))"

text \<open>\<open>getRange(r, c).getValue()\<close> for \<open>r \<ge> 1\<close> and \<open>c \<ge> 1\<close>: row 1 is the title row.\<close>

definition getValue :: "sheet \<Rightarrow> nat \<Rightarrow> nat \<Rightarrow> jsval" where
  "getValue sh r c =
     (if r = 1 then (if c - 1 < length (headers sh) then JStr (headers sh ! (c - 1)) else JStr [])
      else if r - 2 < length (rows sh) then get_col (rows sh ! (r - 2)) (int c - 1)
      else JStr [])"

text \<open>The object built from a row by
  \<open>headers.forEach((header, i) => o[header] = row[i])\<close>: a later column of the same title
  overwrites an earlier one.\<close>

definition row_object :: "string list \<Rightarrow> jsval list \<Rightarrow> obj" where
  "row_object hs row =
     fold (\<lambda>(i, h) ob. ob(h \<mapsto> get_col row (int i))) (enumerate 0 hs) Map.empty"

text \<open>
  \<open>Array.prototype.sort(cmp)\<close>: a stable sort; a comparator result that is positive puts
  the second argument first, a result that is negative, zero or \<open>NaN\<close> keeps the order.
  On a consistent comparator every stable sort returns this list.
\<close>

fun sort_insert :: "('a \<Rightarrow> 'a \<Rightarrow> jsnum) \<Rightarrow> 'a \<Rightarrow> 'a list \<Rightarrow> 'a list" where
  "sort_insert cmp x [] = [x]"
| "sort_insert cmp x (y # ys) =
     (if Fin 0 < cmp x y then y # sort_insert cmp x ys else x # y # ys)"

definition js_sort :: "('a \<Rightarrow> 'a \<Rightarrow> jsnum) \<Rightarrow> 'a list \<Rightarrow> 'a list" where
  "js_sort cmp xs = foldr (sort_insert cmp) xs []"

section \<open>Loans.js: the loan ledger\<close>

text \<open>The comparator of both sorts: by transaction date, then by recording timestamp.\<close>

definition compareTimes :: "jsnum \<Rightarrow> jsnum \<Rightarrow> jsnum \<Rightarrow> jsnum \<Rightarrow> jsnum" where
  "compareTimes dateA dateB stampA stampB =
     (if num_strict_neq dateA dateB then dateA - dateB else stampA - stampB)"

text \<open>\<open>getLoanHistory(employeeId)\<close>: the rows of the employee as objects, in the order of the
  sheet, then sorted.\<close>

definition compareTransactions :: "builtins \<Rightarrow> obj \<Rightarrow> obj \<Rightarrow> jsnum" where
  "compareTransactions B a b =
     compareTimes (getTime B (field a ''TransactionDate'')) (getTime B (field b ''TransactionDate''))
       (getTime B (field a ''Timestamp'')) (getTime B (field b ''Timestamp''))"

definition employeeTransactions :: "jsval \<Rightarrow> sheet \<Rightarrow> obj list" where
  "employeeTransactions employeeId sh =
     filter (\<lambda>t. strict_eq (field t ''Employee ID'') employeeId)
       (map (row_object (headers sh)) (rows sh))"

definition getLoanHistory :: "builtins \<Rightarrow> jsval \<Rightarrow> spreadsheet \<Rightarrow> obj list" where
  "getLoanHistory B employeeId ss =
     (case getSheet ss ''loans'' of
        None \<Rightarrow> []
      | Some sh \<Rightarrow>
          (let transactions = employeeTransactions employeeId sh
           in js_sort (compareTransactions B) transactions))"

text \<open>\<open>getCurrentLoanBalance(employeeId)\<close>.\<close>

definition getCurrentLoanBalance :: "builtins \<Rightarrow> jsval \<Rightarrow> spreadsheet \<Rightarrow> jsval" where
  "getCurrentLoanBalance B employeeId ss =
     (let history = getLoanHistory B employeeId ss
      in if length history = 0 then JNum (Fin 0)
         else field (history ! (length history - 1)) ''BalanceAfter'')"

text \<open>
  \<open>recalculateLoanBalances(employeeId)\<close>. An item pairs the sheet row number of a record
  (\<open>index + 2\<close>) with the row as it was read. The walk returns the sheet and whether it ran to
  its end (\<open>True\<close>) or a write threw (\<open>False\<close>); the cells written before a throw stay written.
\<close>

definition compareRows :: "builtins \<Rightarrow> int \<Rightarrow> int \<Rightarrow> nat \<times> jsval list \<Rightarrow> nat \<times> jsval list \<Rightarrow> jsnum" where
  "compareRows B transactionDateCol timestampCol a b =
     compareTimes (getTime B (get_col (snd a) transactionDateCol))
       (getTime B (get_col (snd b) transactionDateCol))
       (getTime B (get_col (snd a) timestampCol)) (getTime B (get_col (snd b) timestampCol))"

definition employeeRows :: "jsval \<Rightarrow> int \<Rightarrow> jsval list list \<Rightarrow> (nat \<times> jsval list) list" where
  "employeeRows employeeId idCol allData =
     filter (\<lambda>item. strict_eq (get_col (snd item) idCol) employeeId)
       (map (\<lambda>(index, row). (index + 2, row)) (enumerate 0 allData))"

fun writeBalances ::
  "builtins \<Rightarrow> int \<Rightarrow> int \<Rightarrow> int \<Rightarrow> (nat \<times> jsval list) list \<Rightarrow> jsnum \<Rightarrow> sheet \<Rightarrow> sheet \<times> bool" where
  "writeBalances B balanceBeforeCol balanceAfterCol loanAmountCol [] currentBalance sh = (sh, True)"
| "writeBalances B balanceBeforeCol balanceAfterCol loanAmountCol (item # items) currentBalance sh =
     (let loanAmount = parseFloat B (get_col (snd item) loanAmountCol)
      in case setValue sh (fst item) (balanceBeforeCol + 1) (JNum currentBalance) of
           None \<Rightarrow> (sh, False)
         | Some sh1 \<Rightarrow>
             (let currentBalance' = currentBalance + loanAmount
              in case setValue sh1 (fst item) (balanceAfterCol + 1) (JNum currentBalance') of
                   None \<Rightarrow> (sh1, False)
                 | Some sh2 \<Rightarrow>
                     writeBalances B balanceBeforeCol balanceAfterCol loanAmountCol items
                       currentBalance' sh2))"

definition sortedEmployeeRows :: "builtins \<Rightarrow> jsval \<Rightarrow> sheet \<Rightarrow> (nat \<times> jsval list) list" where
  "sortedEmployeeRows B employeeId sh =
     (let idCol = indexOf (headers sh) ''Employee ID'';
          transactionDateCol = indexOf (headers sh) ''TransactionDate'';
          timestampCol = indexOf (headers sh) ''Timestamp''
      in js_sort (compareRows B transactionDateCol timestampCol)
           (employeeRows employeeId idCol (rows sh)))"

definition recalculateSheet :: "builtins \<Rightarrow> jsval \<Rightarrow> sheet \<Rightarrow> sheet \<times> bool" where
  "recalculateSheet B employeeId sh =
     writeBalances B (indexOf (headers sh) ''BalanceBefore'') (indexOf (headers sh) ''BalanceAfter'')
       (indexOf (headers sh) ''LoanAmount'') (sortedEmployeeRows B employeeId sh) (Fin 0) sh"

definition recalculateLoanBalances :: "builtins \<Rightarrow> jsval \<Rightarrow> spreadsheet \<Rightarrow> spreadsheet \<times> bool" where
  "recalculateLoanBalances B employeeId ss =
     (case getSheet ss ''loans'' of
        None \<Rightarrow> (ss, True)
      | Some sh \<Rightarrow>
          (let r = recalculateSheet B employeeId sh in (ss(''loans'' \<mapsto> fst r), snd r)))"

section \<open>Results of the entry points\<close>

text \<open>
  A validator returns \<open>{ isValid, errors }\<close>. An entry point returns one of
  \<open>{ success: false, errors }\<close>, \<open>{ success: false, message }\<close> and
  \<open>{ success: true, message, recordNumber }\<close> (the record number only from the payroll).
  The clock, the identifier generator and the session user are inputs of a call.
\<close>

record validation =
  isValid :: bool
  errors :: "string list"

datatype response =
    Invalid "string list"
  | Failed string
  | Succeeded string "jsval option"

record env =
  now :: jsnum
  uuid :: string
  currentUser :: string

text \<open>\<open>errors.push(msg)\<close> under a condition.\<close>

definition push_if :: "bool \<Rightarrow> string \<Rightarrow> string list \<Rightarrow> string list" where
  "push_if c msg errs = (if c then errs @ [msg] else errs)"

section \<open>Employees.js\<close>

text \<open>
  \<open>getEmployeeByName(name)\<close>: the first row whose name cell is strictly equal to \<open>name\<close>, as
  an object, or \<open>null\<close> (the inner \<open>None\<close>). The function does not test the sheet it gets, so
  a missing sheet makes it throw (the outer \<open>None\<close>).
\<close>

definition getEmployeeByName :: "spreadsheet \<Rightarrow> jsval \<Rightarrow> obj option option" where
  "getEmployeeByName ss name =
     (case getSheet ss ''EMPLOYEE DETAILS'' of
        None \<Rightarrow> None
      | Some sh \<Rightarrow>
          (let nameCol = indexOf (headers sh) ''EMPLOYEE NAME''
           in Some (map_option (row_object (headers sh))
                (find (\<lambda>row. strict_eq (get_col row nameCol) name) (rows sh)))))"

section \<open>Loans.js: recording a transaction\<close>

text \<open>\<open>validateLoan(data)\<close>.\<close>

definition validateLoan :: "builtins \<Rightarrow> obj \<Rightarrow> validation" where
  "validateLoan B data =
     (let errors0 = push_if (\<not> truthy (field data ''Employee Name'')) ''Employee name is required.'' [];
          errors1 = push_if (\<not> truthy (field data ''LoanAmount'') \<or>
                             toNumber B (field data ''LoanAmount'') \<le> Fin 0)
                      ''Loan amount must be a positive number.'' errors0;
          errors2 = push_if (\<not> truthy (field data ''TransactionDate''))
                      ''Transaction date is required.'' errors1
      in \<lparr>isValid = (length errors2 = 0), errors = errors2\<rparr>)"

text \<open>The row built by \<open>headers.map(header => switch (header) ...)\<close>.\<close>

definition loanCell ::
  "builtins \<Rightarrow> env \<Rightarrow> obj \<Rightarrow> jsval \<Rightarrow> jsnum \<Rightarrow> jsval \<Rightarrow> jsval \<Rightarrow> string \<Rightarrow> jsval" where
  "loanCell B E data employeeId amount balanceBefore balanceAfter header =
     (if header = ''LoanID'' then JStr (uuid E)
      else if header = ''Employee ID'' then employeeId
      else if header = ''Timestamp'' then JDate (now E)
      else if header = ''TransactionDate'' then JDate (getTime B (field data ''TransactionDate''))
      else if header = ''LoanAmount'' then JNum amount
      else if header = ''BalanceBefore'' then balanceBefore
      else if header = ''BalanceAfter'' then balanceAfter
      else js_or (field data header) JNull)"

text \<open>
  \<open>addLoanTransaction(data)\<close>. Whatever is thrown inside is caught and answered with the
  generic message; what was written to the sheet before stays written.
\<close>

definition addLoanTransaction :: "builtins \<Rightarrow> env \<Rightarrow> obj \<Rightarrow> spreadsheet \<Rightarrow> response \<times> spreadsheet" where
  "addLoanTransaction B E data ss =
     (let validation = validateLoan B data
      in if \<not> isValid validation then (Invalid (errors validation), ss)
         else
           (case getEmployeeByName ss (field data ''Employee Name'') of
              None \<Rightarrow> (Failed ''An error occurred while adding the loan transaction.'', ss)
            | Some None \<Rightarrow> (Failed ''Employee not found.'', ss)
            | Some (Some employee) \<Rightarrow>
                (let employeeId = field employee ''id'';
                     before = recalculateLoanBalances B employeeId ss;
                     ss1 = fst before
                 in if \<not> snd before
                    then (Failed ''An error occurred while adding the loan transaction.'', ss1)
                    else
                      (case getSheet ss1 ''loans'' of
                         None \<Rightarrow> (Failed ''Loans sheet not found.'', ss1)
                       | Some sh \<Rightarrow>
                           (case getHeaderRow sh of
                              None \<Rightarrow>
                                (Failed ''An error occurred while adding the loan transaction.'', ss1)
                            | Some hs \<Rightarrow>
                                (let balanceBefore = getCurrentLoanBalance B employeeId ss1;
                                     amount =
                                       (if strict_eq (field data ''LoanType'') (JStr ''Repayment'')
                                        then - js_abs (toNumber B (field data ''LoanAmount''))
                                        else js_abs (toNumber B (field data ''LoanAmount'')));
                                     balanceAfter = js_plus B balanceBefore (JNum amount);
                                     newRow =
                                       map (loanCell B E data employeeId amount balanceBefore
                                              balanceAfter) hs;
                                     ss2 = ss1(''loans'' \<mapsto> appendRow sh newRow);
                                     after = recalculateLoanBalances B employeeId ss2
                                 in if snd after
                                    then (Succeeded ''Loan transaction added successfully.'' None,
                                          fst after)
                                    else (Failed
                                            ''An error occurred while adding the loan transaction.'',
                                          fst after)))))))"

text \<open>\<open>syncLoanForPayslip(recordNumber)\<close>: the body is empty.\<close>

definition syncLoanForPayslip :: "jsval \<Rightarrow> spreadsheet \<Rightarrow> spreadsheet" where
  "syncLoanForPayslip recordNumber ss = ss"

section \<open>Payroll.js\<close>

text \<open>\<open>parseFloat(v) || 0\<close>.\<close>

definition float_or_zero :: "builtins \<Rightarrow> jsval \<Rightarrow> jsnum" where
  "float_or_zero B v = (if truthy (JNum (parseFloat B v)) then parseFloat B v else Fin 0)"

text \<open>\<open>validatePayslip(data)\<close>.\<close>

definition validatePayslip :: "builtins \<Rightarrow> obj \<Rightarrow> validation" where
  "validatePayslip B data =
     (let errors0 = push_if (\<not> truthy (field data ''EMPLOYEE NAME'')) ''Employee Name is required'' [];
          errors1 = push_if (\<not> truthy (field data ''WEEKENDING''))
                      ''Week Ending date is required'' errors0;
          hours = float_or_zero B (field data ''HOURS'');
          overtimeHours = float_or_zero B (field data ''OVERTIMEHOURS'');
          errors2 = push_if (hours < Fin 0 \<or> overtimeHours < Fin 0)
                      ''Hours cannot be negative'' errors1;
          errors3 = push_if (hours + overtimeHours > Fin 168)
                      ''Total hours exceed maximum possible (168 hours/week)'' errors2
      in \<lparr>isValid = (length errors3 = 0), errors = errors3\<rparr>)"

text \<open>
  \<open>calculatePayslip(data)\<close>: throws (\<open>None\<close>) when the employee is not found or the employee
  sheet is missing; otherwise a copy of \<open>data\<close> with the derived fields set.
\<close>

definition calculatePayslip :: "builtins \<Rightarrow> spreadsheet \<Rightarrow> obj \<Rightarrow> obj option" where
  "calculatePayslip B ss data =
     (case getEmployeeByName ss (field data ''EMPLOYEE NAME'') of
        None \<Rightarrow> None
      | Some None \<Rightarrow> None
      | Some (Some employee) \<Rightarrow>
          (let hourlyRate = parseFloat B (field employee ''HOURLY RATE'');
               hours = float_or_zero B (field data ''HOURS'');
               minutes = float_or_zero B (field data ''MINUTES'');
               overtimeHours = float_or_zero B (field data ''OVERTIMEHOURS'');
               overtimeMinutes = float_or_zero B (field data ''OVERTIMEMINUTES'');
               leavePay = float_or_zero B (field data ''LEAVE PAY'');
               bonusPay = float_or_zero B (field data ''BONUS PAY'');
               otherIncome = float_or_zero B (field data ''OTHERINCOME'');
               otherDeductions = float_or_zero B (field data ''OTHER DEDUCTIONS'');
               loanDeduction = float_or_zero B (field data ''LoanDeductionThisWeek'');
               newLoan = float_or_zero B (field data ''NewLoanThisWeek'');
               standardTime = (hours * hourlyRate) + ((hourlyRate / Fin 60) * minutes);
               overtime = (overtimeHours * hourlyRate * Fin 1.5) +
                          ((hourlyRate / Fin 60) * overtimeMinutes * Fin 1.5);
               grossSalary = standardTime + overtime + leavePay + bonusPay + otherIncome;
               uif = (if strict_eq (field employee ''EMPLOYMENT STATUS'') (JStr ''Permanent'')
                      then grossSalary * Fin 0.01 else Fin 0);
               totalDeductions = uif + otherDeductions + loanDeduction;
               netSalary = grossSalary - totalDeductions;
               paidToAccount = netSalary - loanDeduction + newLoan
           in Some (data(''HOURLYRATE'' \<mapsto> JNum hourlyRate,
                         ''STANDARDTIME'' \<mapsto> JNum standardTime,
                         ''OVERTIME'' \<mapsto> JNum overtime,
                         ''GROSSSALARY'' \<mapsto> JNum grossSalary,
                         ''UIF'' \<mapsto> JNum uif,
                         ''TOTALDEDUCTIONS'' \<mapsto> JNum totalDeductions,
                         ''NETTSALARY'' \<mapsto> JNum netSalary,
                         ''PaidToAccount'' \<mapsto> JNum paidToAccount))))"

text \<open>
  The new row is an array that is assigned to at positions found by \<open>indexOf\<close>: an assignment
  at \<open>-1\<close> sets the property \<open>"-1"\<close> of the array and leaves its elements alone.
\<close>

record jsarray =
  elems :: "jsval list"
  minus_one :: jsval

definition array_set :: "jsarray \<Rightarrow> int \<Rightarrow> jsval \<Rightarrow> jsarray" where
  "array_set a i v = (if i < 0 then a\<lparr>minus_one := v\<rparr> else a\<lparr>elems := (elems a)[nat i := v]\<rparr>)"

definition array_get :: "jsarray \<Rightarrow> int \<Rightarrow> jsval" where
  "array_get a i =
     (if i < 0 then minus_one a
      else if nat i < length (elems a) then elems a ! nat i else JUndefined)"

text \<open>\<open>createPayslip(data)\<close>.\<close>

definition createPayslip :: "builtins \<Rightarrow> env \<Rightarrow> obj \<Rightarrow> spreadsheet \<Rightarrow> response \<times> spreadsheet" where
  "createPayslip B E data ss =
     (let validation = validatePayslip B data
      in if \<not> isValid validation then (Invalid (errors validation), ss)
         else
           (case calculatePayslip B ss data of
              None \<Rightarrow> (Failed ''An error occurred while creating the payslip.'', ss)
            | Some calculatedData \<Rightarrow>
                (case getSheet ss ''salary'' of
                   None \<Rightarrow>
                     (Failed ''Salary sheet not found. Please check sheet configuration.'', ss)
                 | Some sh \<Rightarrow>
                     (case getHeaderRow sh of
                        None \<Rightarrow> (Failed ''An error occurred while creating the payslip.'', ss)
                      | Some hs \<Rightarrow>
                          (let lastRecordNumber =
                                 js_or (getValue sh (getLastRow sh) 1) (JNum (Fin 7915));
                               newRow0 =
                                 \<lparr>elems =
                                    map (\<lambda>header.
                                           js_or (js_or (field calculatedData header) (field data header))
                                             JNull) hs,
                                  minus_one = JUndefined\<rparr>;
                               recordNumberIndex = indexOf hs ''RECORDNUMBER'';
                               newRow1 =
                                 array_set newRow0 recordNumberIndex
                                   (js_plus B lastRecordNumber (JNum (Fin 1)));
                               newRow2 = array_set newRow1 (indexOf hs ''TIMESTAMP'') (JDate (now E));
                               newRow3 =
                                 array_set newRow2 (indexOf hs ''USER'') (JStr (currentUser E))
                           in (Succeeded ''Payslip created successfully.''
                                 (Some (array_get newRow3 recordNumberIndex)),
                               ss(''salary'' \<mapsto> appendRow sh (elems newRow3))))))))"

section \<open>Timesheets.js\<close>

text \<open>\<open>validateTimesheet(data)\<close>.\<close>

definition validateTimesheet :: "builtins \<Rightarrow> obj \<Rightarrow> validation" where
  "validateTimesheet B data =
     (let errors0 = push_if (\<not> truthy (field data ''EMPLOYEE NAME'')) ''Employee name is required'' [];
          errors1 = push_if (\<not> truthy (field data ''WEEKENDING''))
                      ''Week ending date is required'' errors0;
          hours = float_or_zero B (field data ''HOURS'');
          overtimeHours = float_or_zero B (field data ''OVERTIMEHOURS'');
          errors2 = push_if (hours < Fin 0 \<or> overtimeHours < Fin 0)
                      ''Hours cannot be negative'' errors1
      in \<lparr>isValid = (length errors2 = 0), errors = errors2\<rparr>)"

section \<open>Notions of the statements and proofs\<close>

text \<open>
  The balance cells of the items hold the running balance: walking the items from
  \<open>cur\<close>, each row of the sheet holds the balance before and after its item.
\<close>

fun settled :: "builtins \<Rightarrow> int \<Rightarrow> int \<Rightarrow> int \<Rightarrow> (nat \<times> jsval list) list \<Rightarrow> jsnum \<Rightarrow> sheet \<Rightarrow> bool" where
  "settled B bb ba la [] cur sh = True"
| "settled B bb ba la (item # items) cur sh =
     (let row = rows sh ! (fst item - 2);
          cur' = cur + parseFloat B (get_col (snd item) la)
      in nat bb < length row \<and> row ! nat bb = JNum cur \<and>
         nat ba < length row \<and> row ! nat ba = JNum cur' \<and>
         settled B bb ba la items cur' sh)"

text \<open>The items with their rows read again from another state of the sheet.\<close>

definition reread :: "sheet \<Rightarrow> (nat \<times> jsval list) list \<Rightarrow> (nat \<times> jsval list) list" where
  "reread sh items = map (\<lambda>item. (fst item, rows sh ! (fst item - 2))) items"

text \<open>
  The chronological key of a transaction: the time of its transaction date, then the time
  of its recording. A key is valid when both are times of valid dates.
\<close>

definition txKey :: "builtins \<Rightarrow> obj \<Rightarrow> jsnum \<times> jsnum" where
  "txKey B t = (getTime B (field t ''TransactionDate''), getTime B (field t ''Timestamp''))"

definition valid_key :: "jsnum \<times> jsnum \<Rightarrow> bool" where
  "valid_key k = (fst k \<noteq> NaN \<and> snd k \<noteq> NaN)"

text \<open>Ascending chronological order: by date, the recording time deciding between equal dates.\<close>

definition chron_le :: "jsnum \<times> jsnum \<Rightarrow> jsnum \<times> jsnum \<Rightarrow> bool" where
  "chron_le a b = (fst a < fst b \<or> (fst a = fst b \<and> snd a \<le> snd b))"

text \<open>The running balance along a list of transactions, from \<open>cur\<close>.\<close>

fun chain_from :: "builtins \<Rightarrow> jsnum \<Rightarrow> obj list \<Rightarrow> bool" where
  "chain_from B cur [] = True"
| "chain_from B cur (t # ts) =
     (field t ''BalanceBefore'' = JNum cur \<and>
      field t ''BalanceAfter'' = JNum (cur + parseFloat B (field t ''LoanAmount'')) \<and>
      chain_from B (cur + parseFloat B (field t ''LoanAmount'')) ts)"

text \<open>The transactions of an employee as stored, in the order of the sheet.\<close>

definition ledgerTransactions :: "jsval \<Rightarrow> spreadsheet \<Rightarrow> obj list" where
  "ledgerTransactions employeeId ss =
     (case getSheet ss ''loans'' of None \<Rightarrow> [] | Some sh \<Rightarrow> employeeTransactions employeeId sh)"

text \<open>The period inputs read as numbers, and the derived fields of a computed payslip.\<close>

definition numeric_inputs :: "string list" where
  "numeric_inputs =
     [''HOURS'', ''MINUTES'', ''OVERTIMEHOURS'', ''OVERTIMEMINUTES'', ''LEAVE PAY'', ''BONUS PAY'',
      ''OTHERINCOME'', ''OTHER DEDUCTIONS'', ''LoanDeductionThisWeek'', ''NewLoanThisWeek'']"

definition derived_fields :: "string list" where
  "derived_fields =
     [''HOURLYRATE'', ''STANDARDTIME'', ''OVERTIME'', ''GROSSSALARY'', ''UIF'', ''TOTALDEDUCTIONS'',
      ''NETTSALARY'', ''PaidToAccount'']"

text \<open>A run of payslip creations, one call after the other, and the record numbers that the
  successful calls of a run have returned.\<close>

fun createPayslips :: "builtins \<Rightarrow> (env \<times> obj) list \<Rightarrow> spreadsheet \<Rightarrow> response list \<times> spreadsheet" where
  "createPayslips B [] ss = ([], ss)"
| "createPayslips B (call # calls) ss =
     (let first = createPayslip B (fst call) (snd call) ss;
          rest = createPayslips B calls (snd first)
      in (fst first # fst rest, snd rest))"

fun assignedNumbers :: "response list \<Rightarrow> jsval list" where
  "assignedNumbers [] = []"
| "assignedNumbers (Succeeded msg (Some recordNumber) # rs) = recordNumber # assignedNumbers rs"
| "assignedNumbers (r # rs) = assignedNumbers rs"

text \<open>The numbers in the record number column of a salary sheet.\<close>

fun finite_numbers :: "jsval list \<Rightarrow> real list" where
  "finite_numbers [] = []"
| "finite_numbers (JNum (Fin x) # vs) = x # finite_numbers vs"
| "finite_numbers (v # vs) = finite_numbers vs"

definition existingRecordNumbers :: "sheet \<Rightarrow> real list" where
  "existingRecordNumbers sh =
     finite_numbers (map (\<lambda>row. get_col row (indexOf (headers sh) ''RECORDNUMBER'')) (rows sh))"

text \<open>
  The next record number in the words of the specification: the largest existing record
  number plus one, or the configured floor plus one if none exist.
\<close>

definition spec_nextRecordNumber :: "sheet \<Rightarrow> real" where
  "spec_nextRecordNumber sh =
     (if existingRecordNumbers sh = [] then 7915 + 1 else Max (set (existingRecordNumbers sh)) + 1)"

section \<open>Concrete data\<close>

text \<open>
  Data for the concrete evaluations: a host in which no string reads as a number or a date
  (the data hold numbers and dates as such), and a ledger in which the second transaction of
  employee \<open>E1\<close>, a disbursement of 500, is dated a day before the first, a disbursement of
  1000, and still carries the balances computed when it was recorded.
\<close>

definition example_builtins :: builtins where
  "example_builtins =
     \<lparr>str_parseFloat = (\<lambda>s. NaN), str_toNumber = (\<lambda>s. NaN), str_dateParse = (\<lambda>s. NaN),
      num_toString = (\<lambda>n. []), date_toString = (\<lambda>t. [])\<rparr>"

definition example_ledger :: sheet where
  "example_ledger =
     \<lparr>headers = [''LoanID'', ''Employee ID'', ''Timestamp'', ''TransactionDate'', ''LoanType'',
                 ''LoanAmount'', ''BalanceBefore'', ''BalanceAfter''],
      rows =
        [[JStr ''100001'', JStr ''E1'', JDate (Fin 10), JDate (Fin 86400000), JStr ''Disbursement'',
          JNum (Fin 1000), JNum (Fin 0), JNum (Fin 1000)],
         [JStr ''100002'', JStr ''E2'', JDate (Fin 15), JDate (Fin 86400000), JStr ''Disbursement'',
          JNum (Fin 70), JNum (Fin 0), JNum (Fin 70)],
         [JStr ''100003'', JStr ''E1'', JDate (Fin 20), JDate (Fin 0), JStr ''Disbursement'',
          JNum (Fin 500), JNum (Fin 1000), JNum (Fin 1500)]]\<rparr>"

definition example_store :: spreadsheet where
  "example_store = [''loans'' \<mapsto> example_ledger]"

text \<open>A loan form without employee name and date and with a negative amount; the inputs
  of a call.\<close>

definition empty_loan_form :: obj where
  "empty_loan_form = [''LoanType'' \<mapsto> JStr ''Disbursement'', ''LoanAmount'' \<mapsto> JNum (Fin (- 50))]"

definition example_env :: env where
  "example_env = \<lparr>now = Fin 1700000000000, uuid = ''123456'', currentUser = ''clerk@example.org''\<rparr>"

text \<open>Concrete payroll data: one permanent employee paid 100 an hour, and period inputs.\<close>

definition example_employees :: sheet where
  "example_employees =
     \<lparr>headers = [''ID'', ''EMPLOYEE NAME'', ''HOURLY RATE'', ''EMPLOYMENT STATUS''],
      rows = [[JStr ''E1'', JStr ''Thabo'', JNum (Fin 100), JStr ''Permanent'']]\<rparr>"

definition week_inputs :: "real \<Rightarrow> real \<Rightarrow> obj" where
  "week_inputs h ot =
     [''EMPLOYEE NAME'' \<mapsto> JStr ''Thabo'', ''WEEKENDING'' \<mapsto> JStr ''2024-01-05'',
      ''HOURS'' \<mapsto> JNum (Fin h), ''MINUTES'' \<mapsto> JNum (Fin 0),
      ''OVERTIMEHOURS'' \<mapsto> JNum (Fin ot), ''OVERTIMEMINUTES'' \<mapsto> JNum (Fin 0),
      ''LEAVE PAY'' \<mapsto> JNum (Fin 0), ''BONUS PAY'' \<mapsto> JNum (Fin 0), ''OTHERINCOME'' \<mapsto> JNum (Fin 0),
      ''OTHER DEDUCTIONS'' \<mapsto> JNum (Fin 0), ''LoanDeductionThisWeek'' \<mapsto> JNum (Fin 0)]"

definition example_salary :: sheet where
  "example_salary =
     \<lparr>headers = [''RECORDNUMBER'', ''TIMESTAMP'', ''USER'', ''EMPLOYEE NAME'', ''WEEKENDING'', ''HOURS'',
                 ''GROSSSALARY'', ''NETTSALARY'', ''LoanDeductionThisWeek'', ''PaidToAccount''],
      rows = [[JNum (Fin 7915), JDate (Fin 1600000000000), JStr ''clerk@example.org'', JStr ''Thabo'',
               JStr ''2023-12-29'', JNum (Fin 40), JNum (Fin 4000), JNum (Fin 3960), JStr [],
               JNum (Fin 3960)]]\<rparr>"

definition example_payroll_store :: spreadsheet where
  "example_payroll_store =
     [''EMPLOYEE DETAILS'' \<mapsto> example_employees, ''salary'' \<mapsto> example_salary,
      ''loans'' \<mapsto> example_ledger]"

text \<open>A salary sheet whose record numbers are not in ascending order, and week inputs with
  a loan deduction and a new loan.\<close>

definition unordered_salary :: sheet where
  "unordered_salary =
     \<lparr>headers = [''RECORDNUMBER'', ''TIMESTAMP'', ''USER'', ''EMPLOYEE NAME'', ''WEEKENDING'', ''HOURS''],
      rows = [[JNum (Fin 10), JDate (Fin 1600000000000), JStr ''clerk@example.org'', JStr ''Thabo'',
               JStr ''2023-12-22'', JNum (Fin 40)],
              [JNum (Fin 5), JDate (Fin 1600000600000), JStr ''clerk@example.org'', JStr ''Thabo'',
               JStr ''2023-12-29'', JNum (Fin 40)]]\<rparr>"

definition unordered_store :: spreadsheet where
  "unordered_store = [''EMPLOYEE DETAILS'' \<mapsto> example_employees, ''salary'' \<mapsto> unordered_salary]"

text \<open>A salary sheet whose only row has no record number yet.\<close>

definition unnumbered_salary :: sheet where
  "unnumbered_salary =
     \<lparr>headers = [''RECORDNUMBER'', ''TIMESTAMP'', ''USER'', ''EMPLOYEE NAME'', ''WEEKENDING'', ''HOURS''],
      rows = [[JStr [], JStr [], JStr [], JStr ''Thabo'', JStr ''2023-12-22'', JNum (Fin 40)]]\<rparr>"

definition unnumbered_store :: spreadsheet where
  "unnumbered_store = [''EMPLOYEE DETAILS'' \<mapsto> example_employees, ''salary'' \<mapsto> unnumbered_salary]"

definition loan_week_inputs :: obj where
  "loan_week_inputs =
     (week_inputs 40 5)(''LoanDeductionThisWeek'' \<mapsto> JNum (Fin 100), ''NewLoanThisWeek'' \<mapsto> JNum (Fin 200))"

section \<open>Facts about the record store\<close>

lemma indexOf_bounds: "-1 \<le> indexOf hs n \<and> indexOf hs n < int (length hs)"
  by (induction hs) (auto simp: Let_def)

lemma indexOf_nth: "0 \<le> indexOf hs n \<Longrightarrow> hs ! nat (indexOf hs n) = n"
  by (induction hs) (auto simp: Let_def nat_add_distrib split: if_splits)

lemma indexOf_mem: "(0 \<le> indexOf hs n) = (n \<in> set hs)"
  by (induction hs) (auto simp: Let_def)

lemma indexOf_inj: "indexOf hs a = indexOf hs b \<Longrightarrow> 0 \<le> indexOf hs a \<Longrightarrow> a = b"
  using indexOf_nth by metis

lemma get_put_col: "get_col (put_col row c v) i = (if i = int c then v else get_col row i)"
  by (auto simp: get_col_def put_col_def nth_append nth_list_update)

lemma put_col_id: "c < length row \<Longrightarrow> row ! c = v \<Longrightarrow> put_col row c v = row"
  by (auto simp: put_col_def)

lemma length_put_col: "c < length (put_col row c v)"
  by (simp add: put_col_def)

lemma nth_put_col_same: "put_col row c v ! c = v"
  by (simp add: put_col_def)

lemma nth_put_col_other: "c' < length row \<Longrightarrow> c' \<noteq> c \<Longrightarrow> put_col row c v ! c' = row ! c'"
  by (simp add: put_col_def nth_append)

lemma length_put_col_mono: "length row \<le> length (put_col row c v)"
  by (simp add: put_col_def)

lemma setValue_headers: "setValue sh r c v = Some sh' \<Longrightarrow> headers sh' = headers sh"
  by (auto simp: setValue_def split: if_splits)

lemma setValue_length: "setValue sh r c v = Some sh' \<Longrightarrow> length (rows sh') = length (rows sh)"
  by (auto simp: setValue_def split: if_splits)

lemma setValue_other_row:
  "setValue sh r c v = Some sh' \<Longrightarrow> i \<noteq> r - 2 \<Longrightarrow> rows sh' ! i = rows sh ! i"
  by (auto simp: setValue_def split: if_splits)

lemma setValue_other_col:
  "setValue sh r c v = Some sh' \<Longrightarrow> k \<noteq> c - 1 \<Longrightarrow> get_col (rows sh' ! i) k = get_col (rows sh ! i) k"
  by (cases "i < length (rows sh)"; cases "i = r - 2")
     (auto simp: setValue_def get_put_col list_update_beyond split: if_splits)

lemma writeBalances_shape:
  "headers (fst (writeBalances B bb ba la items cur sh)) = headers sh \<and>
   length (rows (fst (writeBalances B bb ba la items cur sh))) = length (rows sh)"
proof (induction items arbitrary: cur sh)
  case Nil
  then show ?case by simp
next
  case (Cons item items)
  show ?case
    using Cons.IH
    by (auto simp: Let_def setValue_headers setValue_length split: option.splits)
qed

lemma writeBalances_other_row:
  "i \<notin> (\<lambda>item. fst item - 2) ` set items \<Longrightarrow>
   rows (fst (writeBalances B bb ba la items cur sh)) ! i = rows sh ! i"
proof (induction items arbitrary: cur sh)
  case Nil
  then show ?case by simp
next
  case (Cons item items)
  then show ?case
    by (auto simp: Let_def setValue_other_row split: option.splits)
qed

lemma writeBalances_other_col:
  "k \<noteq> bb \<Longrightarrow> k \<noteq> ba \<Longrightarrow>
   get_col (rows (fst (writeBalances B bb ba la items cur sh)) ! i) k = get_col (rows sh ! i) k"
proof (induction items arbitrary: cur sh)
  case Nil
  then show ?case by simp
next
  case (Cons item items)
  then show ?case
    by (auto simp: Let_def setValue_other_col split: option.splits)
qed

lemma set_sort_insert: "set (sort_insert cmp x ys) = insert x (set ys)"
  by (induction ys) auto

lemma set_js_sort: "set (js_sort cmp xs) = set xs"
  by (induction xs) (auto simp: js_sort_def set_sort_insert)

lemma length_sort_insert: "length (sort_insert cmp x ys) = Suc (length ys)"
  by (induction ys) auto

lemma length_js_sort: "length (js_sort cmp xs) = length xs"
  by (induction xs) (auto simp: js_sort_def length_sort_insert)

lemma sort_insert_map:
  "\<forall>y\<in>set ys. cmp' (g x) (g y) = cmp x y \<Longrightarrow>
   sort_insert cmp' (g x) (map g ys) = map g (sort_insert cmp x ys)"
  by (induction ys) auto

lemma js_sort_map:
  "\<forall>x\<in>set xs. \<forall>y\<in>set xs. cmp' (g x) (g y) = cmp x y \<Longrightarrow>
   js_sort cmp' (map g xs) = map g (js_sort cmp xs)"
proof (induction xs)
  case Nil
  then show ?case by (simp add: js_sort_def)
next
  case (Cons x xs)
  have ih: "js_sort cmp' (map g xs) = map g (js_sort cmp xs)"
    using Cons by simp
  have "\<forall>y\<in>set (js_sort cmp xs). cmp' (g x) (g y) = cmp x y"
    using Cons.prems by (simp add: set_js_sort)
  then have "sort_insert cmp' (g x) (map g (js_sort cmp xs)) = map g (sort_insert cmp x (js_sort cmp xs))"
    by (rule sort_insert_map)
  then show ?case
    using ih by (simp add: js_sort_def)
qed

lemma distinct_sort_insert: "distinct (map f (sort_insert cmp x ys)) = distinct (map f (x # ys))"
  by (induction ys) (auto simp: set_sort_insert)

lemma distinct_js_sort: "distinct (map f (js_sort cmp xs)) = distinct (map f xs)"
proof (induction xs)
  case Nil
  then show ?case by (simp add: js_sort_def)
next
  case (Cons x xs)
  have "distinct (map f (js_sort cmp (x # xs))) = distinct (map f (x # js_sort cmp xs))"
    by (simp add: js_sort_def distinct_sort_insert del: distinct.simps list.map)
  then show ?case
    using Cons by (simp add: set_js_sort)
qed

section \<open>The walk over the rows of an employee\<close>

lemma setValue_same:
  assumes "0 \<le> c" "2 \<le> r" "nat c < length (rows sh ! (r - 2))" "rows sh ! (r - 2) ! nat c = v"
  shows "setValue sh r (c + 1) v = Some sh"
proof -
  have "put_col (rows sh ! (r - 2)) (nat c) v = rows sh ! (r - 2)"
    using assms by (simp add: put_col_id)
  then show ?thesis
    using assms by (simp add: setValue_def)
qed

lemma writeBalances_settled:
  "0 \<le> bb \<Longrightarrow> 0 \<le> ba \<Longrightarrow> \<forall>item\<in>set items. 2 \<le> fst item \<Longrightarrow>
   settled B bb ba la items cur sh \<Longrightarrow> writeBalances B bb ba la items cur sh = (sh, True)"
proof (induction items arbitrary: cur)
  case Nil
  then show ?case by simp
next
  case (Cons item items)
  then show ?case
    by (simp add: Let_def setValue_same)
qed

lemma settled_frame:
  "\<forall>item\<in>set items. rows sh' ! (fst item - 2) = rows sh ! (fst item - 2) \<Longrightarrow>
   settled B bb ba la items cur sh' = settled B bb ba la items cur sh"
  by (induction items arbitrary: cur) (auto simp: Let_def)

lemma setValue_twice_row:
  assumes "0 \<le> bb" "0 \<le> ba" "2 \<le> r" "r - 2 < length (rows sh)"
  shows "\<exists>sh2. (\<exists>sh1. setValue sh r (bb + 1) v = Some sh1 \<and> setValue sh1 r (ba + 1) w = Some sh2) \<and>
           length (rows sh2) = length (rows sh) \<and>
           rows sh2 ! (r - 2) = put_col (put_col (rows sh ! (r - 2)) (nat bb) v) (nat ba) w"
  using assms by (simp add: setValue_def)

lemma writeBalances_settles:
  assumes "0 \<le> bb" "0 \<le> ba" "bb \<noteq> ba"
  shows "distinct (map fst items) \<Longrightarrow>
   \<forall>item\<in>set items. 2 \<le> fst item \<and> fst item - 2 < length (rows sh) \<Longrightarrow>
   snd (writeBalances B bb ba la items cur sh) \<and>
   settled B bb ba la items cur (fst (writeBalances B bb ba la items cur sh))"
proof (induction items arbitrary: cur sh)
  case Nil
  then show ?case by simp
next
  case (Cons item items)
  define cur' where "cur' = cur + parseFloat B (get_col (snd item) la)"
  define r where "r = fst item"
  have r: "2 \<le> r" "r - 2 < length (rows sh)"
    using Cons.prems by (simp_all add: r_def)
  obtain sh1 sh2 where s1: "setValue sh r (bb + 1) (JNum cur) = Some sh1"
    and s2: "setValue sh1 r (ba + 1) (JNum cur') = Some sh2"
    and len: "length (rows sh2) = length (rows sh)"
    and row: "rows sh2 ! (r - 2) = put_col (put_col (rows sh ! (r - 2)) (nat bb) (JNum cur)) (nat ba) (JNum cur')"
    using setValue_twice_row [OF assms(1,2) r] by blast
  have step: "writeBalances B bb ba la (item # items) cur sh = writeBalances B bb ba la items cur' sh2"
    using s1 s2 by (simp add: cur'_def r_def Let_def)
  have ih: "snd (writeBalances B bb ba la items cur' sh2) \<and>
            settled B bb ba la items cur' (fst (writeBalances B bb ba la items cur' sh2))"
    using Cons.prems len by (intro Cons.IH) auto
  have notin: "r - 2 \<notin> (\<lambda>item. fst item - 2) ` set items"
  proof
    assume "r - 2 \<in> (\<lambda>item. fst item - 2) ` set items"
    then obtain it where it: "it \<in> set items" "r - 2 = fst it - 2" by auto
    then have "2 \<le> fst it" using Cons.prems by auto
    then have "fst it = r" using it r by arith
    then have "fst item \<in> fst ` set items" using it(1) by (metis r_def imageI)
    then show False using Cons.prems by simp
  qed
  have keep: "rows (fst (writeBalances B bb ba la items cur' sh2)) ! (r - 2) = rows sh2 ! (r - 2)"
    using notin by (rule writeBalances_other_row)
  have nb: "nat bb \<noteq> nat ba" using assms by auto
  let ?p = "put_col (rows sh ! (r - 2)) (nat bb) (JNum cur)"
  have l1: "nat bb < length ?p" by (rule length_put_col)
  have l2: "nat bb < length (put_col ?p (nat ba) (JNum cur'))"
    using l1 length_put_col_mono [of ?p "nat ba" "JNum cur'"] by linarith
  have v1: "put_col ?p (nat ba) (JNum cur') ! nat bb = JNum cur"
    using l1 nb by (simp add: nth_put_col_other nth_put_col_same)
  have cells: "nat bb < length (rows sh2 ! (r - 2))" "rows sh2 ! (r - 2) ! nat bb = JNum cur"
    "nat ba < length (rows sh2 ! (r - 2))" "rows sh2 ! (r - 2) ! nat ba = JNum cur'"
    using l2 v1 by (simp_all add: row nth_put_col_same length_put_col)
  show ?case
    unfolding step using ih keep cells
    by (simp add: Let_def cur'_def [symmetric] r_def [symmetric])
qed

lemma enumerate_nth: "enumerate 0 xs = map (\<lambda>i. (i, xs ! i)) [0..<length xs]"
  by (rule nth_equalityI) (simp_all add: nth_enumerate_eq)

lemma employeeRows_alt:
  "employeeRows e idCol xs =
     map (\<lambda>i. (i + 2, xs ! i)) (filter (\<lambda>i. strict_eq (get_col (xs ! i) idCol) e) [0..<length xs])"
  by (simp add: employeeRows_def enumerate_nth filter_map comp_def)

lemma employeeRows_item:
  "item \<in> set (employeeRows e idCol xs) \<Longrightarrow>
   2 \<le> fst item \<and> fst item - 2 < length xs \<and> snd item = xs ! (fst item - 2) \<and>
   strict_eq (get_col (xs ! (fst item - 2)) idCol) e"
  by (auto simp: employeeRows_alt)

lemma employeeRows_index:
  "i < length xs \<Longrightarrow> strict_eq (get_col (xs ! i) idCol) e \<Longrightarrow>
   (i + 2, xs ! i) \<in> set (employeeRows e idCol xs)"
  by (auto simp: employeeRows_alt)

lemma employeeRows_distinct: "distinct (map fst (employeeRows e idCol xs))"
  by (simp add: employeeRows_alt comp_def distinct_map inj_on_def)

lemma employeeRows_reread:
  assumes "length (rows sh') = length (rows sh)"
    and "\<forall>i<length (rows sh). get_col (rows sh' ! i) idCol = get_col (rows sh ! i) idCol"
  shows "employeeRows e idCol (rows sh') = reread sh' (employeeRows e idCol (rows sh))"
proof -
  have "filter (\<lambda>i. strict_eq (get_col (rows sh' ! i) idCol) e) [0..<length (rows sh)] =
        filter (\<lambda>i. strict_eq (get_col (rows sh ! i) idCol) e) [0..<length (rows sh)]"
    using assms(2) by (intro filter_cong) auto
  then show ?thesis
    by (simp add: employeeRows_alt reread_def assms(1) comp_def)
qed

lemma sortedEmployeeRows_item:
  "item \<in> set (sortedEmployeeRows B e sh) \<Longrightarrow>
   2 \<le> fst item \<and> fst item - 2 < length (rows sh) \<and> snd item = rows sh ! (fst item - 2) \<and>
   strict_eq (get_col (rows sh ! (fst item - 2)) (indexOf (headers sh) ''Employee ID'')) e"
  by (simp add: sortedEmployeeRows_def Let_def set_js_sort employeeRows_item)

lemma sortedEmployeeRows_distinct: "distinct (map fst (sortedEmployeeRows B e sh))"
  by (simp add: sortedEmployeeRows_def Let_def distinct_js_sort employeeRows_distinct)

lemma sortedEmployeeRows_reread:
  assumes hs: "headers sh' = headers sh"
    and len: "length (rows sh') = length (rows sh)"
    and same: "\<forall>i<length (rows sh). \<forall>name\<in>{''Employee ID'', ''TransactionDate'', ''Timestamp''}.
        get_col (rows sh' ! i) (indexOf (headers sh) name) = get_col (rows sh ! i) (indexOf (headers sh) name)"
  shows "sortedEmployeeRows B e sh' = reread sh' (sortedEmployeeRows B e sh)"
proof -
  let ?id = "indexOf (headers sh) ''Employee ID''"
  let ?d = "indexOf (headers sh) ''TransactionDate''"
  let ?t = "indexOf (headers sh) ''Timestamp''"
  let ?g = "\<lambda>item::nat \<times> jsval list. (fst item, rows sh' ! (fst item - 2))"
  have er: "employeeRows e ?id (rows sh') = map ?g (employeeRows e ?id (rows sh))"
    using employeeRows_reread [OF len, of ?id e] same by (simp add: reread_def)
  have cmp: "\<forall>x\<in>set (employeeRows e ?id (rows sh)). \<forall>y\<in>set (employeeRows e ?id (rows sh)).
      compareRows B ?d ?t (?g x) (?g y) = compareRows B ?d ?t x y"
  proof (intro ballI)
    fix x y
    assume "x \<in> set (employeeRows e ?id (rows sh))" "y \<in> set (employeeRows e ?id (rows sh))"
    then have "fst x - 2 < length (rows sh)" "snd x = rows sh ! (fst x - 2)"
      "fst y - 2 < length (rows sh)" "snd y = rows sh ! (fst y - 2)"
      using employeeRows_item by blast+
    then show "compareRows B ?d ?t (?g x) (?g y) = compareRows B ?d ?t x y"
      using same by (simp add: compareRows_def)
  qed
  show ?thesis
    unfolding sortedEmployeeRows_def Let_def hs er reread_def
    using cmp by (rule js_sort_map)
qed

lemma settled_reread:
  assumes "\<forall>item\<in>set items. parseFloat B (get_col (rows sh' ! (fst item - 2)) la) = parseFloat B (get_col (snd item) la)"
  shows "settled B bb ba la (reread sh' items) cur sh = settled B bb ba la items cur sh"
  using assms by (induction items arbitrary: cur) (auto simp: reread_def Let_def)

section \<open>Recomputation\<close>

lemma balance_cols_differ:
  assumes "name \<noteq> name'" "0 \<le> indexOf hs name'"
  shows "indexOf hs name \<noteq> indexOf hs name'"
  using assms indexOf_inj by metis

lemma recalculateSheet_shape:
  "headers (fst (recalculateSheet B e sh)) = headers sh \<and>
   length (rows (fst (recalculateSheet B e sh))) = length (rows sh)"
  by (simp add: recalculateSheet_def writeBalances_shape)

lemma recalculateSheet_other_col:
  assumes "name \<noteq> ''BalanceBefore''" "name \<noteq> ''BalanceAfter''"
  shows "get_col (rows (fst (recalculateSheet B e sh)) ! i) (indexOf (headers sh) name) =
         get_col (rows sh ! i) (indexOf (headers sh) name)"
proof (cases "0 \<le> indexOf (headers sh) name")
  case True
  then have "indexOf (headers sh) name \<noteq> indexOf (headers sh) ''BalanceBefore''"
    "indexOf (headers sh) name \<noteq> indexOf (headers sh) ''BalanceAfter''"
    using assms indexOf_inj by metis+
  then show ?thesis
    by (simp add: recalculateSheet_def writeBalances_other_col)
next
  case False
  then show ?thesis by (simp add: get_col_def)
qed

lemma recalculateSheet_rows_again:
  "sortedEmployeeRows B e (fst (recalculateSheet B e sh)) =
   reread (fst (recalculateSheet B e sh)) (sortedEmployeeRows B e sh)"
  by (rule sortedEmployeeRows_reread)
     (auto simp: recalculateSheet_shape recalculateSheet_other_col)

lemma recalculateSheet_settled:
  assumes bb: "0 \<le> indexOf (headers sh) ''BalanceBefore''"
    and ba: "0 \<le> indexOf (headers sh) ''BalanceAfter''"
  shows "snd (recalculateSheet B e sh) \<and>
     settled B (indexOf (headers sh) ''BalanceBefore'') (indexOf (headers sh) ''BalanceAfter'')
       (indexOf (headers sh) ''LoanAmount'')
       (sortedEmployeeRows B e (fst (recalculateSheet B e sh))) (Fin 0) (fst (recalculateSheet B e sh))"
proof -
  let ?bb = "indexOf (headers sh) ''BalanceBefore''"
  let ?ba = "indexOf (headers sh) ''BalanceAfter''"
  let ?la = "indexOf (headers sh) ''LoanAmount''"
  let ?items = "sortedEmployeeRows B e sh"
  let ?sh' = "fst (recalculateSheet B e sh)"
  have ne: "?bb \<noteq> ?ba"
    using balance_cols_differ [OF _ ba, of "''BalanceBefore''"] by simp
  have main: "snd (writeBalances B ?bb ?ba ?la ?items (Fin 0) sh) \<and>
      settled B ?bb ?ba ?la ?items (Fin 0) (fst (writeBalances B ?bb ?ba ?la ?items (Fin 0) sh))"
    using bb ba ne
  proof (rule writeBalances_settles)
    show "distinct (map fst ?items)" by (rule sortedEmployeeRows_distinct)
    show "\<forall>item\<in>set ?items. 2 \<le> fst item \<and> fst item - 2 < length (rows sh)"
      using sortedEmployeeRows_item by blast
  qed
  have amounts: "\<forall>item\<in>set ?items.
      parseFloat B (get_col (rows ?sh' ! (fst item - 2)) ?la) = parseFloat B (get_col (snd item) ?la)"
  proof
    fix item assume "item \<in> set ?items"
    then have "snd item = rows sh ! (fst item - 2)"
      using sortedEmployeeRows_item by blast
    then show "parseFloat B (get_col (rows ?sh' ! (fst item - 2)) ?la) = parseFloat B (get_col (snd item) ?la)"
      by (simp add: recalculateSheet_other_col)
  qed
  have "settled B ?bb ?ba ?la (reread ?sh' ?items) (Fin 0) ?sh' = settled B ?bb ?ba ?la ?items (Fin 0) ?sh'"
    using amounts by (rule settled_reread)
  then show ?thesis
    using main by (simp add: recalculateSheet_rows_again) (simp add: recalculateSheet_def)
qed

lemma recalculateSheet_again_ok:
  assumes bb: "0 \<le> indexOf (headers sh) ''BalanceBefore''"
    and ba: "0 \<le> indexOf (headers sh) ''BalanceAfter''"
  shows "recalculateSheet B e (fst (recalculateSheet B e sh)) = (fst (recalculateSheet B e sh), True)"
proof -
  let ?sh' = "fst (recalculateSheet B e sh)"
  have hs: "headers ?sh' = headers sh" by (simp add: recalculateSheet_shape)
  have "\<forall>item\<in>set (sortedEmployeeRows B e ?sh'). 2 \<le> fst item"
    using sortedEmployeeRows_item by blast
  then show ?thesis
    using recalculateSheet_settled [OF bb ba, of B e] bb ba
    unfolding recalculateSheet_def [of B e ?sh'] hs
    by (intro writeBalances_settled) auto
qed

lemma writeBalances_no_before:
  "bb < 0 \<Longrightarrow> fst (writeBalances B bb ba la items cur sh) = sh"
  by (cases items) (auto simp: setValue_def)

lemma recalculateSheet_no_before:
  "indexOf (headers sh) ''BalanceBefore'' < 0 \<Longrightarrow> fst (recalculateSheet B e sh) = sh"
  by (simp add: recalculateSheet_def writeBalances_no_before)

lemma writeBalances_no_after:
  assumes "ba < 0" "0 \<le> bb" "2 \<le> fst item"
  shows "writeBalances B bb ba la (item # items) cur sh =
     (sh\<lparr>rows := (rows sh)[fst item - 2 := put_col (rows sh ! (fst item - 2)) (nat bb) (JNum cur)]\<rparr>, False)"
  using assms by (simp add: setValue_def Let_def)

lemma recalculateSheet_no_after:
  assumes ba: "indexOf (headers sh) ''BalanceAfter'' < 0"
    and bb: "0 \<le> indexOf (headers sh) ''BalanceBefore''"
  shows "recalculateSheet B e (fst (recalculateSheet B e sh)) = recalculateSheet B e sh"
proof (cases "sortedEmployeeRows B e sh")
  case Nil
  then have "fst (recalculateSheet B e sh) = sh"
    by (simp add: recalculateSheet_def)
  then show ?thesis by simp
next
  case (Cons item items)
  let ?bb = "indexOf (headers sh) ''BalanceBefore''"
  let ?ba = "indexOf (headers sh) ''BalanceAfter''"
  let ?la = "indexOf (headers sh) ''LoanAmount''"
  let ?sh' = "fst (recalculateSheet B e sh)"
  have item: "2 \<le> fst item" "fst item - 2 < length (rows sh)"
    using sortedEmployeeRows_item [of item B e sh] Cons by simp_all
  have first: "recalculateSheet B e sh =
      (sh\<lparr>rows := (rows sh)[fst item - 2 := put_col (rows sh ! (fst item - 2)) (nat ?bb) (JNum (Fin 0))]\<rparr>, False)"
    using writeBalances_no_after [OF ba bb item(1)] Cons by (simp add: recalculateSheet_def)
  have hs: "headers ?sh' = headers sh" by (simp add: recalculateSheet_shape)
  have again: "sortedEmployeeRows B e ?sh' =
      (fst item, rows ?sh' ! (fst item - 2)) # reread ?sh' items"
    using recalculateSheet_rows_again [of B e sh] Cons by (simp add: reread_def)
  have row: "rows ?sh' ! (fst item - 2) = put_col (rows sh ! (fst item - 2)) (nat ?bb) (JNum (Fin 0))"
    using item by (simp add: first)
  have same: "put_col (rows ?sh' ! (fst item - 2)) (nat ?bb) (JNum (Fin 0)) = rows ?sh' ! (fst item - 2)"
    unfolding row by (rule put_col_id) (simp_all add: length_put_col nth_put_col_same)
  have "recalculateSheet B e ?sh' =
      (?sh'\<lparr>rows := (rows ?sh')[fst item - 2 := put_col (rows ?sh' ! (fst item - 2)) (nat ?bb) (JNum (Fin 0))]\<rparr>, False)"
    unfolding recalculateSheet_def [of B e ?sh'] hs again
    using writeBalances_no_after [OF ba bb, of "(fst item, rows ?sh' ! (fst item - 2))"] item(1)
    by simp
  also have "\<dots> = (?sh', False)"
    by (simp add: same)
  finally show ?thesis by (simp add: first)
qed

lemma recalculateSheet_idem:
  "recalculateSheet B e (fst (recalculateSheet B e sh)) = recalculateSheet B e sh"
proof -
  consider "indexOf (headers sh) ''BalanceBefore'' < 0"
    | "0 \<le> indexOf (headers sh) ''BalanceBefore''" "indexOf (headers sh) ''BalanceAfter'' < 0"
    | "0 \<le> indexOf (headers sh) ''BalanceBefore''" "0 \<le> indexOf (headers sh) ''BalanceAfter''"
    by linarith
  then show ?thesis
  proof cases
    case 1
    then show ?thesis by (simp add: recalculateSheet_no_before)
  next
    case 2
    then show ?thesis by (simp add: recalculateSheet_no_after)
  next
    case 3
    have "snd (recalculateSheet B e sh)"
      using recalculateSheet_settled [OF 3] by simp
    then have "recalculateSheet B e sh = (fst (recalculateSheet B e sh), True)"
      by (cases "recalculateSheet B e sh") simp
    then show ?thesis
      using recalculateSheet_again_ok [OF 3, of B e] by simp
  qed
qed

text \<open>
  C4. The recomputation is idempotent: for every employee and every state of the store,
  running it on the state it has produced returns that state again, with the same outcome,
  so the stored balances after two runs are those after one.
\<close>

theorem recompute_idempotent:
  "recalculateLoanBalances B employeeId (fst (recalculateLoanBalances B employeeId ss)) =
   recalculateLoanBalances B employeeId ss"
proof (cases "getSheet ss ''loans''")
  case None
  then show ?thesis by (simp add: recalculateLoanBalances_def)
next
  case (Some sh)
  have "ss(''loans'' \<mapsto> fst (recalculateSheet B employeeId sh), ''loans'' \<mapsto> fst (recalculateSheet B employeeId sh)) =
        ss(''loans'' \<mapsto> fst (recalculateSheet B employeeId sh))"
    by simp
  then show ?thesis
    using Some by (simp add: recalculateLoanBalances_def getSheet_def Let_def recalculateSheet_idem)
qed

section \<open>The history of an employee\<close>

lemma row_object_fold:
  "distinct hs \<Longrightarrow>
   fold (\<lambda>(i, h) ob. ob(h \<mapsto> get_col row (int i))) (enumerate n hs) m name =
     (if name \<in> set hs then Some (get_col row (int n + indexOf hs name)) else m name)"
proof (induction hs arbitrary: n m)
  case Nil
  then show ?case by simp
next
  case (Cons h hs)
  then show ?case
    using indexOf_mem [of hs name] by (auto simp: Let_def ac_simps)
qed

lemma row_object_lookup:
  "distinct hs \<Longrightarrow>
   row_object hs row name = (if name \<in> set hs then Some (get_col row (indexOf hs name)) else None)"
  using row_object_fold [of hs row 0 Map.empty name] by (simp add: row_object_def)

lemma field_row_object:
  assumes "distinct hs"
  shows "field (row_object hs row) name = get_col row (indexOf hs name)"
proof (cases "name \<in> set hs")
  case True
  then show ?thesis by (simp add: field_def row_object_lookup [OF assms])
next
  case False
  then have "indexOf hs name < 0" using indexOf_mem [of hs name] by simp
  then show ?thesis using False by (simp add: field_def row_object_lookup [OF assms] get_col_def)
qed

lemma map_snd_employeeRows:
  "map snd (employeeRows e idCol xs) = filter (\<lambda>row. strict_eq (get_col row idCol) e) xs"
proof -
  have "map snd (employeeRows e idCol xs) =
        map (\<lambda>i. xs ! i) (filter (\<lambda>i. strict_eq (get_col (xs ! i) idCol) e) [0..<length xs])"
    by (simp add: employeeRows_alt comp_def)
  also have "\<dots> = filter (\<lambda>row. strict_eq (get_col row idCol) e) (map (\<lambda>i. xs ! i) [0..<length xs])"
    by (simp add: filter_map comp_def)
  also have "\<dots> = filter (\<lambda>row. strict_eq (get_col row idCol) e) xs"
    by (simp add: map_nth)
  finally show ?thesis .
qed

lemma employeeTransactions_rows:
  assumes "distinct (headers sh)"
  shows "employeeTransactions e sh =
     map (\<lambda>item. row_object (headers sh) (snd item))
       (employeeRows e (indexOf (headers sh) ''Employee ID'') (rows sh))"
proof -
  have "map (\<lambda>item. row_object (headers sh) (snd item))
          (employeeRows e (indexOf (headers sh) ''Employee ID'') (rows sh)) =
        map (row_object (headers sh))
          (map snd (employeeRows e (indexOf (headers sh) ''Employee ID'') (rows sh)))"
    by simp
  also have "\<dots> = employeeTransactions e sh"
    unfolding map_snd_employeeRows employeeTransactions_def
    by (simp add: filter_map comp_def field_row_object [OF assms])
  finally show ?thesis by simp
qed

lemma history_rows:
  assumes "distinct (headers sh)"
  shows "js_sort (compareTransactions B) (employeeTransactions e sh) =
     map (\<lambda>item. row_object (headers sh) (snd item)) (sortedEmployeeRows B e sh)"
  unfolding employeeTransactions_rows [OF assms] sortedEmployeeRows_def Let_def
  by (rule js_sort_map)
     (simp add: compareTransactions_def compareRows_def field_row_object [OF assms])

lemma settled_chain:
  assumes hs: "distinct (headers sh)"
    and bb: "0 \<le> indexOf (headers sh) ''BalanceBefore''"
    and ba: "0 \<le> indexOf (headers sh) ''BalanceAfter''"
  shows "\<forall>item\<in>set items. snd item = rows sh ! (fst item - 2) \<Longrightarrow>
     settled B (indexOf (headers sh) ''BalanceBefore'') (indexOf (headers sh) ''BalanceAfter'')
       (indexOf (headers sh) ''LoanAmount'') items cur sh \<Longrightarrow>
     chain_from B cur (map (\<lambda>item. row_object (headers sh) (snd item)) items)"
proof (induction items arbitrary: cur)
  case Nil
  then show ?case by simp
next
  case (Cons item items)
  then show ?case
    using bb ba by (simp add: Let_def field_row_object [OF hs] get_col_def)
qed

lemma chain_from_nth:
  "chain_from B cur ts \<Longrightarrow>
   (ts \<noteq> [] \<longrightarrow> field (ts ! 0) ''BalanceBefore'' = JNum cur) \<and>
   (\<forall>i<length ts. \<exists>b. field (ts ! i) ''BalanceBefore'' = JNum b \<and>
        field (ts ! i) ''BalanceAfter'' = JNum (b + parseFloat B (field (ts ! i) ''LoanAmount''))) \<and>
   (\<forall>i. Suc i < length ts \<longrightarrow> field (ts ! Suc i) ''BalanceBefore'' = field (ts ! i) ''BalanceAfter'')"
proof (induction ts arbitrary: cur)
  case Nil
  then show ?case by simp
next
  case (Cons t ts)
  let ?c = "cur + parseFloat B (field t ''LoanAmount'')"
  have ih: "(ts \<noteq> [] \<longrightarrow> field (ts ! 0) ''BalanceBefore'' = JNum ?c) \<and>
   (\<forall>i<length ts. \<exists>b. field (ts ! i) ''BalanceBefore'' = JNum b \<and>
        field (ts ! i) ''BalanceAfter'' = JNum (b + parseFloat B (field (ts ! i) ''LoanAmount''))) \<and>
   (\<forall>i. Suc i < length ts \<longrightarrow> field (ts ! Suc i) ''BalanceBefore'' = field (ts ! i) ''BalanceAfter'')"
    using Cons.prems by (intro Cons.IH) simp
  have hd: "field t ''BalanceBefore'' = JNum cur" "field t ''BalanceAfter'' = JNum ?c"
    using Cons.prems by simp_all
  have p2: "\<forall>i<length (t # ts). \<exists>b. field ((t # ts) ! i) ''BalanceBefore'' = JNum b \<and>
        field ((t # ts) ! i) ''BalanceAfter'' = JNum (b + parseFloat B (field ((t # ts) ! i) ''LoanAmount''))"
  proof (intro allI impI)
    fix i assume "i < length (t # ts)"
    then show "\<exists>b. field ((t # ts) ! i) ''BalanceBefore'' = JNum b \<and>
        field ((t # ts) ! i) ''BalanceAfter'' = JNum (b + parseFloat B (field ((t # ts) ! i) ''LoanAmount''))"
      using hd ih by (cases i) auto
  qed
  have p3: "\<forall>i. Suc i < length (t # ts) \<longrightarrow>
      field ((t # ts) ! Suc i) ''BalanceBefore'' = field ((t # ts) ! i) ''BalanceAfter''"
  proof (intro allI impI)
    fix i assume "Suc i < length (t # ts)"
    then show "field ((t # ts) ! Suc i) ''BalanceBefore'' = field ((t # ts) ! i) ''BalanceAfter''"
      using hd ih by (cases i) auto
  qed
  show ?case using hd p2 p3 by simp
qed

lemma compareTimes_pos:
  "Fin 0 < compareTimes (Fin a) (Fin c) (Fin b) (Fin d) \<longleftrightarrow> c < a \<or> (a = c \<and> d < b)"
  by (auto simp: compareTimes_def)

lemma chron_le_Fin:
  "chron_le (Fin a, Fin b) (Fin c, Fin d) \<longleftrightarrow> a < c \<or> (a = c \<and> b \<le> d)"
  by (simp add: chron_le_def)

lemma valid_keyE:
  assumes "valid_key k"
  obtains a b where "k = (Fin a, Fin b)"
proof -
  obtain x y where k: "k = (x, y)" by (cases k)
  with assms obtain a b where "x = Fin a" "y = Fin b"
    by (cases x; cases y) (auto simp: valid_key_def)
  with k show ?thesis using that by simp
qed

lemma chron_le_refl: "valid_key k \<Longrightarrow> chron_le k k"
  by (erule valid_keyE) (simp add: chron_le_Fin)

lemma chron_le_trans:
  "valid_key a \<Longrightarrow> valid_key b \<Longrightarrow> valid_key c \<Longrightarrow> chron_le a b \<Longrightarrow> chron_le b c \<Longrightarrow> chron_le a c"
  by (elim valid_keyE) (auto simp: chron_le_Fin)

lemma sort_insert_sorted:
  fixes key :: "'a \<Rightarrow> jsnum \<times> jsnum"
  assumes cmp: "\<And>x y. cmp x y = compareTimes (fst (key x)) (fst (key y)) (snd (key x)) (snd (key y))"
  shows "valid_key (key x) \<Longrightarrow> \<forall>y\<in>set ys. valid_key (key y) \<Longrightarrow>
    sorted_wrt (\<lambda>a b. chron_le (key a) (key b)) ys \<Longrightarrow>
    sorted_wrt (\<lambda>a b. chron_le (key a) (key b)) (sort_insert cmp x ys)"
proof (induction ys)
  case Nil
  then show ?case by simp
next
  case (Cons y ys)
  obtain a b where kx: "key x = (Fin a, Fin b)" using Cons.prems(1) by (rule valid_keyE)
  obtain c d where ky: "key y = (Fin c, Fin d)" using Cons.prems(2) by (auto elim: valid_keyE)
  show ?case
  proof (cases "Fin 0 < cmp x y")
    case True
    then have "chron_le (key y) (key x)"
      by (auto simp: cmp kx ky compareTimes_pos chron_le_Fin)
    moreover have "sorted_wrt (\<lambda>a b. chron_le (key a) (key b)) (sort_insert cmp x ys)"
      using Cons by simp
    ultimately show ?thesis
      using True Cons.prems by (simp add: set_sort_insert)
  next
    case False
    then have xy: "chron_le (key x) (key y)"
      by (auto simp: cmp kx ky compareTimes_pos chron_le_Fin)
    have "\<forall>z\<in>set ys. chron_le (key x) (key z)"
    proof
      fix z assume z: "z \<in> set ys"
      then have "chron_le (key y) (key z)" using Cons.prems by simp
      then show "chron_le (key x) (key z)"
        using xy Cons.prems z chron_le_trans [of "key x" "key y" "key z"] by simp
    qed
    then show ?thesis
      using False xy Cons.prems by simp
  qed
qed

lemma js_sort_sorted:
  fixes key :: "'a \<Rightarrow> jsnum \<times> jsnum"
  assumes cmp: "\<And>x y. cmp x y = compareTimes (fst (key x)) (fst (key y)) (snd (key x)) (snd (key y))"
  shows "\<forall>x\<in>set xs. valid_key (key x) \<Longrightarrow>
    sorted_wrt (\<lambda>a b. chron_le (key a) (key b)) (js_sort cmp xs)"
proof (induction xs)
  case Nil
  then show ?case by (simp add: js_sort_def)
next
  case (Cons x xs)
  have "sorted_wrt (\<lambda>a b. chron_le (key a) (key b)) (sort_insert cmp x (js_sort cmp xs))"
    using Cons by (intro sort_insert_sorted [where key = key, OF cmp]) (simp_all add: set_js_sort)
  then show ?case by (simp add: js_sort_def)
qed

lemma history_sorted:
  "\<forall>t\<in>set ts. valid_key (txKey B t) \<Longrightarrow>
   sorted_wrt (\<lambda>a b. chron_le (txKey B a) (txKey B b)) (js_sort (compareTransactions B) ts)"
  by (rule js_sort_sorted) (simp_all add: compareTransactions_def txKey_def)

lemma getLoanHistory_sorted:
  "\<forall>t\<in>set (getLoanHistory B e ss). valid_key (txKey B t) \<Longrightarrow>
   sorted_wrt (\<lambda>a b. chron_le (txKey B a) (txKey B b)) (getLoanHistory B e ss)"
proof (cases "getSheet ss ''loans''")
  case None
  then show ?thesis by (simp add: getLoanHistory_def)
next
  case (Some sh)
  assume "\<forall>t\<in>set (getLoanHistory B e ss). valid_key (txKey B t)"
  then have "\<forall>t\<in>set (employeeTransactions e sh). valid_key (txKey B t)"
    using Some by (simp add: getLoanHistory_def set_js_sort)
  then show ?thesis
    using Some by (simp add: getLoanHistory_def history_sorted)
qed

lemma recalculated_history_chain:
  assumes hs: "distinct (headers sh)"
    and bb: "''BalanceBefore'' \<in> set (headers sh)"
    and ba: "''BalanceAfter'' \<in> set (headers sh)"
    and sh: "getSheet ss ''loans'' = Some sh"
  shows "chain_from B (Fin 0) (getLoanHistory B e (fst (recalculateLoanBalances B e ss)))"
proof -
  let ?sh' = "fst (recalculateSheet B e sh)"
  have hs': "headers ?sh' = headers sh" by (simp add: recalculateSheet_shape)
  have bb0: "0 \<le> indexOf (headers sh) ''BalanceBefore''" using bb by (simp add: indexOf_mem)
  have ba0: "0 \<le> indexOf (headers sh) ''BalanceAfter''" using ba by (simp add: indexOf_mem)
  have st: "settled B (indexOf (headers ?sh') ''BalanceBefore'') (indexOf (headers ?sh') ''BalanceAfter'')
       (indexOf (headers ?sh') ''LoanAmount'') (sortedEmployeeRows B e ?sh') (Fin 0) ?sh'"
    using recalculateSheet_settled [OF bb0 ba0, of B e] by (simp add: hs')
  have "chain_from B (Fin 0)
      (map (\<lambda>item. row_object (headers ?sh') (snd item)) (sortedEmployeeRows B e ?sh'))"
  proof (rule settled_chain [OF _ _ _ _ st])
    show "distinct (headers ?sh')" using hs by (simp add: hs')
    show "0 \<le> indexOf (headers ?sh') ''BalanceBefore''" using bb0 by (simp add: hs')
    show "0 \<le> indexOf (headers ?sh') ''BalanceAfter''" using ba0 by (simp add: hs')
    show "\<forall>item\<in>set (sortedEmployeeRows B e ?sh'). snd item = rows ?sh' ! (fst item - 2)"
      using sortedEmployeeRows_item by blast
  qed
  moreover have "getLoanHistory B e (fst (recalculateLoanBalances B e ss)) =
      map (\<lambda>item. row_object (headers ?sh') (snd item)) (sortedEmployeeRows B e ?sh')"
    using sh hs history_rows [of ?sh' B e]
    by (simp add: recalculateLoanBalances_def getLoanHistory_def getSheet_def Let_def hs')
  ultimately show ?thesis by simp
qed

section \<open>Properties of the ledger\<close>

text \<open>
  C1. After the recomputation for an employee, the history of the employee (the transactions
  in ascending order of transaction date and recording time) starts from a balance of 0,
  every transaction carries its balance before plus its amount as its balance after, and
  every balance before is the balance after of the transaction preceding it. This holds for
  every state of the ledger, hence for every order in which the transactions were recorded.
\<close>

theorem balance_invariant_after_recompute:
  fixes B :: builtins and employeeId :: jsval and ss :: spreadsheet and h :: "obj list"
  assumes "getSheet ss ''loans'' = Some sh"
    and "distinct (headers sh)"
    and "''BalanceBefore'' \<in> set (headers sh)"
    and "''BalanceAfter'' \<in> set (headers sh)"
  defines "h \<equiv> getLoanHistory B employeeId (fst (recalculateLoanBalances B employeeId ss))"
  shows "(h \<noteq> [] \<longrightarrow> field (h ! 0) ''BalanceBefore'' = JNum (Fin 0)) \<and>
     (\<forall>i<length h. \<exists>b. field (h ! i) ''BalanceBefore'' = JNum b \<and>
          field (h ! i) ''BalanceAfter'' = JNum (b + parseFloat B (field (h ! i) ''LoanAmount''))) \<and>
     (\<forall>i. Suc i < length h \<longrightarrow> field (h ! Suc i) ''BalanceBefore'' = field (h ! i) ''BalanceAfter'') \<and>
     ((\<forall>t\<in>set h. valid_key (txKey B t)) \<longrightarrow>
        sorted_wrt (\<lambda>a b. chron_le (txKey B a) (txKey B b)) h)"
proof -
  have "chain_from B (Fin 0) h"
    unfolding h_def using assms(2,3,4,1) by (rule recalculated_history_chain)
  then show ?thesis
    using chain_from_nth [of B "Fin 0" h] getLoanHistory_sorted [of B employeeId]
    by (simp add: h_def)
qed

theorem balance_invariant_after_recompute_witness:
  "getSheet example_store ''loans'' = Some example_ledger \<and>
   distinct (headers example_ledger) \<and>
   ''BalanceBefore'' \<in> set (headers example_ledger) \<and>
   ''BalanceAfter'' \<in> set (headers example_ledger) \<and>
   field (getLoanHistory example_builtins (JStr ''E1'')
            (fst (recalculateLoanBalances example_builtins (JStr ''E1'') example_store)) ! 0)
     ''BalanceBefore'' = JNum (Fin 0) \<and>
   field (getLoanHistory example_builtins (JStr ''E1'')
            (fst (recalculateLoanBalances example_builtins (JStr ''E1'') example_store)) ! Suc 0)
     ''BalanceBefore'' =
   field (getLoanHistory example_builtins (JStr ''E1'')
            (fst (recalculateLoanBalances example_builtins (JStr ''E1'') example_store)) ! 0)
     ''BalanceAfter'' \<and>
   sorted_wrt (\<lambda>a b. chron_le (txKey example_builtins a) (txKey example_builtins b))
     (getLoanHistory example_builtins (JStr ''E1'')
        (fst (recalculateLoanBalances example_builtins (JStr ''E1'') example_store)))"
proof -
  let ?h = "getLoanHistory example_builtins (JStr ''E1'')
              (fst (recalculateLoanBalances example_builtins (JStr ''E1'') example_store))"
  have a1: "getSheet example_store ''loans'' = Some example_ledger"
    by (simp add: getSheet_def example_store_def)
  have a2: "distinct (headers example_ledger)" by (simp add: example_ledger_def)
  have a3: "''BalanceBefore'' \<in> set (headers example_ledger)" by (simp add: example_ledger_def)
  have a4: "''BalanceAfter'' \<in> set (headers example_ledger)" by (simp add: example_ledger_def)
  have len: "length ?h = 2" by code_simp
  have valid: "\<forall>t\<in>set ?h. valid_key (txKey example_builtins t)" by code_simp
  from len have ne: "?h \<noteq> []" and two: "Suc 0 < length ?h" by auto
  show ?thesis
    using balance_invariant_after_recompute
        [where B = example_builtins and employeeId = "JStr ''E1''", OF a1 a2 a3 a4]
      a1 a2 a3 a4 ne two valid
    by blast
qed

lemma sorted_wrt_last:
  "sorted_wrt R xs \<Longrightarrow> \<forall>x\<in>set xs. R x x \<Longrightarrow> u \<in> set xs \<Longrightarrow> R u (last xs)"
proof (induction xs)
  case Nil
  then show ?case by simp
next
  case (Cons x xs)
  then show ?case by (cases "xs = []") auto
qed

lemma ledgerTransactions_history:
  "set (getLoanHistory B e ss) = set (ledgerTransactions e ss) \<and>
   length (getLoanHistory B e ss) = length (ledgerTransactions e ss)"
  by (cases "getSheet ss ''loans''")
     (simp_all add: getLoanHistory_def ledgerTransactions_def set_js_sort length_js_sort)

lemma getCurrentLoanBalance_last:
  "getCurrentLoanBalance B e ss =
     (if getLoanHistory B e ss = [] then JNum (Fin 0)
      else field (last (getLoanHistory B e ss)) ''BalanceAfter'')"
  by (simp add: getCurrentLoanBalance_def Let_def last_conv_nth)

text \<open>
  C8. The current balance of an employee is 0 when the employee has no transaction;
  otherwise it is the stored balance after of one of the employee's transactions, and, the
  dates being valid, that transaction is chronologically last: every transaction of the
  employee precedes or equals it in the order by transaction date, then recording time.
\<close>

theorem current_balance_of_last_transaction:
  "(ledgerTransactions employeeId ss = [] \<longrightarrow>
      getCurrentLoanBalance B employeeId ss = JNum (Fin 0)) \<and>
   (ledgerTransactions employeeId ss \<noteq> [] \<longrightarrow>
      (\<exists>t\<in>set (ledgerTransactions employeeId ss).
          getCurrentLoanBalance B employeeId ss = field t ''BalanceAfter'' \<and>
          ((\<forall>u\<in>set (ledgerTransactions employeeId ss). valid_key (txKey B u)) \<longrightarrow>
           (\<forall>u\<in>set (ledgerTransactions employeeId ss). chron_le (txKey B u) (txKey B t)))))"
proof -
  let ?h = "getLoanHistory B employeeId ss"
  let ?txs = "ledgerTransactions employeeId ss"
  have sl: "set ?h = set ?txs" "length ?h = length ?txs"
    using ledgerTransactions_history [of B employeeId ss] by simp_all
  have empty: "?txs = [] \<longrightarrow> getCurrentLoanBalance B employeeId ss = JNum (Fin 0)"
    using sl(2) by (auto simp: getCurrentLoanBalance_last)
  have nonempty: "\<exists>t\<in>set ?txs. getCurrentLoanBalance B employeeId ss = field t ''BalanceAfter'' \<and>
      ((\<forall>u\<in>set ?txs. valid_key (txKey B u)) \<longrightarrow> (\<forall>u\<in>set ?txs. chron_le (txKey B u) (txKey B t)))"
    if ne: "?txs \<noteq> []"
  proof -
    have hne: "?h \<noteq> []" using ne sl by auto
    then have mem: "last ?h \<in> set ?txs" using sl last_in_set by blast
    have cur: "getCurrentLoanBalance B employeeId ss = field (last ?h) ''BalanceAfter''"
      using hne by (simp add: getCurrentLoanBalance_last)
    have "\<forall>u\<in>set ?txs. chron_le (txKey B u) (txKey B (last ?h))"
      if valid: "\<forall>u\<in>set ?txs. valid_key (txKey B u)"
    proof
      fix u assume u: "u \<in> set ?txs"
      have "sorted_wrt (\<lambda>a b. chron_le (txKey B a) (txKey B b)) ?h"
        using valid sl by (intro getLoanHistory_sorted) simp
      moreover have "\<forall>x\<in>set ?h. chron_le (txKey B x) (txKey B x)"
        using valid sl chron_le_refl by simp
      ultimately show "chron_le (txKey B u) (txKey B (last ?h))"
        using u sl sorted_wrt_last [of "\<lambda>a b. chron_le (txKey B a) (txKey B b)" ?h u] by simp
    qed
    then show ?thesis using mem cur by blast
  qed
  show ?thesis using empty nonempty by blast
qed

theorem current_balance_of_last_transaction_witness:
  "ledgerTransactions (JStr ''E1'') example_store \<noteq> [] \<and>
   list_all (\<lambda>u. valid_key (txKey example_builtins u)) (ledgerTransactions (JStr ''E1'') example_store) \<and>
   (\<exists>t\<in>set (ledgerTransactions (JStr ''E1'') example_store).
       getCurrentLoanBalance example_builtins (JStr ''E1'') example_store = field t ''BalanceAfter'' \<and>
       list_all (\<lambda>u. chron_le (txKey example_builtins u) (txKey example_builtins t))
         (ledgerTransactions (JStr ''E1'') example_store)) \<and>
   getCurrentLoanBalance example_builtins (JStr ''E1'') example_store = JNum (Fin 1000) \<and>
   ledgerTransactions (JStr ''E9'') example_store = [] \<and>
   getCurrentLoanBalance example_builtins (JStr ''E9'') example_store = JNum (Fin 0)"
proof -
  have ne: "ledgerTransactions (JStr ''E1'') example_store \<noteq> []" by code_simp
  have valid: "list_all (\<lambda>u. valid_key (txKey example_builtins u))
      (ledgerTransactions (JStr ''E1'') example_store)" by code_simp
  have none: "ledgerTransactions (JStr ''E9'') example_store = []" by code_simp
  have val: "getCurrentLoanBalance example_builtins (JStr ''E1'') example_store = JNum (Fin 1000)"
    by code_simp
  have "\<exists>t\<in>set (ledgerTransactions (JStr ''E1'') example_store).
       getCurrentLoanBalance example_builtins (JStr ''E1'') example_store = field t ''BalanceAfter'' \<and>
       list_all (\<lambda>u. chron_le (txKey example_builtins u) (txKey example_builtins t))
         (ledgerTransactions (JStr ''E1'') example_store)"
    using current_balance_of_last_transaction [of "JStr ''E1''" example_store example_builtins]
      ne valid
    unfolding list_all_iff by blast
  moreover have "getCurrentLoanBalance example_builtins (JStr ''E9'') example_store = JNum (Fin 0)"
    using current_balance_of_last_transaction [of "JStr ''E9''" example_store example_builtins]
      none by blast
  ultimately show ?thesis using ne valid none val by blast
qed

lemma recalculateSheet_other_row:
  assumes "i < length (rows sh)"
    and "\<not> strict_eq (get_col (rows sh ! i) (indexOf (headers sh) ''Employee ID'')) e"
  shows "rows (fst (recalculateSheet B e sh)) ! i = rows sh ! i"
proof -
  have "i \<notin> (\<lambda>item. fst item - 2) ` set (sortedEmployeeRows B e sh)"
    using assms(2) sortedEmployeeRows_item [of _ B e sh] by auto
  then show ?thesis
    unfolding recalculateSheet_def by (rule writeBalances_other_row)
qed

text \<open>
  C9. The recomputation for an employee leaves every other sheet, the titles and the number
  of rows of the ledger as they are; a row of another employee is unchanged, and in every
  row every cell outside the \<open>BalanceBefore\<close> and \<open>BalanceAfter\<close> columns is unchanged.
\<close>

theorem recompute_frame:
  "(getSheet ss ''loans'' = None \<longrightarrow> fst (recalculateLoanBalances B employeeId ss) = ss) \<and>
   (\<forall>sh. getSheet ss ''loans'' = Some sh \<longrightarrow>
      (\<exists>sh'. fst (recalculateLoanBalances B employeeId ss) = ss(''loans'' \<mapsto> sh') \<and>
         headers sh' = headers sh \<and> length (rows sh') = length (rows sh) \<and>
         (\<forall>i<length (rows sh).
            (\<not> strict_eq (get_col (rows sh ! i) (indexOf (headers sh) ''Employee ID'')) employeeId \<longrightarrow>
               rows sh' ! i = rows sh ! i) \<and>
            (\<forall>c. c \<noteq> indexOf (headers sh) ''BalanceBefore'' \<and>
                 c \<noteq> indexOf (headers sh) ''BalanceAfter'' \<longrightarrow>
                 get_col (rows sh' ! i) c = get_col (rows sh ! i) c))))"
proof (intro conjI allI impI)
  assume "getSheet ss ''loans'' = None"
  then show "fst (recalculateLoanBalances B employeeId ss) = ss"
    by (simp add: recalculateLoanBalances_def)
next
  fix sh assume sh: "getSheet ss ''loans'' = Some sh"
  let ?sh' = "fst (recalculateSheet B employeeId sh)"
  have "fst (recalculateLoanBalances B employeeId ss) = ss(''loans'' \<mapsto> ?sh')"
    using sh by (simp add: recalculateLoanBalances_def Let_def)
  moreover have "headers ?sh' = headers sh" "length (rows ?sh') = length (rows sh)"
    by (simp_all add: recalculateSheet_shape)
  moreover have "\<forall>i<length (rows sh).
      (\<not> strict_eq (get_col (rows sh ! i) (indexOf (headers sh) ''Employee ID'')) employeeId \<longrightarrow>
         rows ?sh' ! i = rows sh ! i) \<and>
      (\<forall>c. c \<noteq> indexOf (headers sh) ''BalanceBefore'' \<and> c \<noteq> indexOf (headers sh) ''BalanceAfter'' \<longrightarrow>
           get_col (rows ?sh' ! i) c = get_col (rows sh ! i) c)"
    by (simp add: recalculateSheet_other_row) (simp add: recalculateSheet_def writeBalances_other_col)
  ultimately show "\<exists>sh'. fst (recalculateLoanBalances B employeeId ss) = ss(''loans'' \<mapsto> sh') \<and>
         headers sh' = headers sh \<and> length (rows sh') = length (rows sh) \<and>
         (\<forall>i<length (rows sh).
            (\<not> strict_eq (get_col (rows sh ! i) (indexOf (headers sh) ''Employee ID'')) employeeId \<longrightarrow>
               rows sh' ! i = rows sh ! i) \<and>
            (\<forall>c. c \<noteq> indexOf (headers sh) ''BalanceBefore'' \<and>
                 c \<noteq> indexOf (headers sh) ''BalanceAfter'' \<longrightarrow>
                 get_col (rows sh' ! i) c = get_col (rows sh ! i) c))"
    by blast
qed

theorem recompute_frame_witness:
  "getSheet example_store ''loans'' = Some example_ledger \<and>
   (\<exists>sh'. fst (recalculateLoanBalances example_builtins (JStr ''E1'') example_store) =
            example_store(''loans'' \<mapsto> sh') \<and>
      headers sh' = headers example_ledger \<and>
      length (rows sh') = length (rows example_ledger) \<and>
      rows sh' ! 1 = rows example_ledger ! 1 \<and>
      get_col (rows sh' ! 0) 5 = JNum (Fin 1000) \<and>
      get_col (rows sh' ! 2) 3 = JDate (Fin 0))"
proof -
  have a1: "getSheet example_store ''loans'' = Some example_ledger"
    by (simp add: getSheet_def example_store_def)
  have other: "\<not> strict_eq (get_col (rows example_ledger ! 1)
      (indexOf (headers example_ledger) ''Employee ID'')) (JStr ''E1'')"
    by code_simp
  have cols: "5 \<noteq> indexOf (headers example_ledger) ''BalanceBefore''"
    "5 \<noteq> indexOf (headers example_ledger) ''BalanceAfter''"
    "3 \<noteq> indexOf (headers example_ledger) ''BalanceBefore''"
    "3 \<noteq> indexOf (headers example_ledger) ''BalanceAfter''"
    by code_simp+
  have len: "length (rows example_ledger) = 3" by (simp add: example_ledger_def)
  have v5: "get_col (rows example_ledger ! 0) 5 = JNum (Fin 1000)" by code_simp
  have v3: "get_col (rows example_ledger ! 2) 3 = JDate (Fin 0)" by code_simp
  obtain sh' where sh': "fst (recalculateLoanBalances example_builtins (JStr ''E1'') example_store) =
      example_store(''loans'' \<mapsto> sh')"
    "headers sh' = headers example_ledger" "length (rows sh') = length (rows example_ledger)"
    and frame: "\<forall>i<length (rows example_ledger).
       (\<not> strict_eq (get_col (rows example_ledger ! i) (indexOf (headers example_ledger) ''Employee ID''))
            (JStr ''E1'') \<longrightarrow> rows sh' ! i = rows example_ledger ! i) \<and>
       (\<forall>c. c \<noteq> indexOf (headers example_ledger) ''BalanceBefore'' \<and>
            c \<noteq> indexOf (headers example_ledger) ''BalanceAfter'' \<longrightarrow>
            get_col (rows sh' ! i) c = get_col (rows example_ledger ! i) c)"
    using recompute_frame [of example_store example_builtins "JStr ''E1''"] a1 by blast
  have "rows sh' ! 1 = rows example_ledger ! 1"
    using frame other len by simp
  moreover have "get_col (rows sh' ! 0) 5 = JNum (Fin 1000)"
    using frame cols len v5 by simp
  moreover have "get_col (rows sh' ! 2) 3 = JDate (Fin 0)"
    using frame cols len v3 by simp
  ultimately show ?thesis using a1 sh' by blast
qed

subsection \<open>The ledger after an insert\<close>

lemma recalculateLoanBalances_loans:
  "getSheet ss ''loans'' = Some sh \<Longrightarrow>
   \<exists>sh'. getSheet (fst (recalculateLoanBalances B e ss)) ''loans'' = Some sh' \<and> headers sh' = headers sh"
  by (simp add: recalculateLoanBalances_def getSheet_def Let_def recalculateSheet_shape)

lemma addLoanTransaction_succeeded:
  assumes "addLoanTransaction B E data ss = (Succeeded msg r, ss')"
  shows "\<exists>employee sh1 newRow.
     getEmployeeByName ss (field data ''Employee Name'') = Some (Some employee) \<and>
     getSheet (fst (recalculateLoanBalances B (field employee ''id'') ss)) ''loans'' = Some sh1 \<and>
     ss' = fst (recalculateLoanBalances B (field employee ''id'')
                 ((fst (recalculateLoanBalances B (field employee ''id'') ss))
                    (''loans'' \<mapsto> appendRow sh1 newRow)))"
  using assms
  by (auto simp: addLoanTransaction_def Let_def split: if_splits option.splits)

text \<open>
  After a successful insert the ledger has been recomputed for the employee identifier the
  insert has used, so the history of that identifier carries the running balance from 0.
\<close>

lemma balance_invariant_after_insert:
  assumes add: "addLoanTransaction B E data ss = (Succeeded msg r, ss')"
    and sh: "getSheet ss ''loans'' = Some sh"
    and hs: "distinct (headers sh)" "''BalanceBefore'' \<in> set (headers sh)"
      "''BalanceAfter'' \<in> set (headers sh)"
  shows "\<exists>employee. getEmployeeByName ss (field data ''Employee Name'') = Some (Some employee) \<and>
     chain_from B (Fin 0) (getLoanHistory B (field employee ''id'') ss')"
proof -
  obtain employee sh1 newRow where
    emp: "getEmployeeByName ss (field data ''Employee Name'') = Some (Some employee)"
    and sh1: "getSheet (fst (recalculateLoanBalances B (field employee ''id'') ss)) ''loans'' = Some sh1"
    and ss': "ss' = fst (recalculateLoanBalances B (field employee ''id'')
                 ((fst (recalculateLoanBalances B (field employee ''id'') ss))
                    (''loans'' \<mapsto> appendRow sh1 newRow)))"
    using addLoanTransaction_succeeded [OF add] by blast
  have h1: "headers sh1 = headers sh"
    using recalculateLoanBalances_loans [OF sh, of B "field employee ''id''"] sh1 by simp
  let ?ss2 = "(fst (recalculateLoanBalances B (field employee ''id'') ss))(''loans'' \<mapsto> appendRow sh1 newRow)"
  have "chain_from B (Fin 0)
      (getLoanHistory B (field employee ''id'') (fst (recalculateLoanBalances B (field employee ''id'') ?ss2)))"
  proof (rule recalculated_history_chain)
    show "getSheet ?ss2 ''loans'' = Some (appendRow sh1 newRow)" by (simp add: getSheet_def)
    show "distinct (headers (appendRow sh1 newRow))" using hs h1 by (simp add: appendRow_def)
    show "''BalanceBefore'' \<in> set (headers (appendRow sh1 newRow))" using hs h1 by (simp add: appendRow_def)
    show "''BalanceAfter'' \<in> set (headers (appendRow sh1 newRow))" using hs h1 by (simp add: appendRow_def)
  qed
  then show ?thesis using emp ss' by blast
qed

section \<open>Validation of a loan\<close>

lemma validateLoan_errors:
  "errors (validateLoan B data) =
     (if \<not> truthy (field data ''Employee Name'') then [''Employee name is required.''] else []) @
     (if \<not> truthy (field data ''LoanAmount'') \<or> toNumber B (field data ''LoanAmount'') \<le> Fin 0
      then [''Loan amount must be a positive number.''] else []) @
     (if \<not> truthy (field data ''TransactionDate'') then [''Transaction date is required.''] else [])"
  by (simp add: validateLoan_def push_if_def Let_def)

lemma validateLoan_isValid:
  "isValid (validateLoan B data) = (errors (validateLoan B data) = [])"
  by (simp add: validateLoan_def Let_def)

text \<open>
  C7. A loan input that fails validation is answered with the list of all violated rules,
  each rule contributing its message in the order of the checks, and the store after the
  call is the store before it.
\<close>

theorem invalid_loan_leaves_store:
  assumes "\<not> isValid (validateLoan B data)"
  shows "addLoanTransaction B E data ss = (Invalid (errors (validateLoan B data)), ss) \<and>
     errors (validateLoan B data) \<noteq> [] \<and>
     errors (validateLoan B data) =
       (if \<not> truthy (field data ''Employee Name'') then [''Employee name is required.''] else []) @
       (if \<not> truthy (field data ''LoanAmount'') \<or> toNumber B (field data ''LoanAmount'') \<le> Fin 0
        then [''Loan amount must be a positive number.''] else []) @
       (if \<not> truthy (field data ''TransactionDate'') then [''Transaction date is required.''] else [])"
  using assms validateLoan_errors [of B data]
  by (simp add: addLoanTransaction_def Let_def validateLoan_isValid)

theorem invalid_loan_leaves_store_witness:
  "\<not> isValid (validateLoan example_builtins empty_loan_form) \<and>
   addLoanTransaction example_builtins example_env empty_loan_form example_store =
     (Invalid [''Employee name is required.'', ''Loan amount must be a positive number.'',
               ''Transaction date is required.''], example_store)"
proof -
  have inv: "\<not> isValid (validateLoan example_builtins empty_loan_form)" by code_simp
  have errs: "(if \<not> truthy (field empty_loan_form ''Employee Name'') then [''Employee name is required.''] else []) @
       (if \<not> truthy (field empty_loan_form ''LoanAmount'') \<or>
           toNumber example_builtins (field empty_loan_form ''LoanAmount'') \<le> Fin 0
        then [''Loan amount must be a positive number.''] else []) @
       (if \<not> truthy (field empty_loan_form ''TransactionDate'') then [''Transaction date is required.''] else []) =
     [''Employee name is required.'', ''Loan amount must be a positive number.'',
               ''Transaction date is required.'']"
    by code_simp
  show ?thesis
    using invalid_loan_leaves_store [OF inv, of example_env example_store] inv errs by simp
qed

section \<open>Validation and calculation of a payslip\<close>

lemma float_or_zero_NaN: "parseFloat B v = NaN \<Longrightarrow> float_or_zero B v = Fin 0"
  by (simp add: float_or_zero_def)

lemma float_or_zero_zero: "float_or_zero B (JNum (Fin 0)) = Fin 0"
  by (simp add: float_or_zero_def)

lemma float_or_zero_Fin: "float_or_zero B (JNum (Fin x)) = Fin x"
  by (simp add: float_or_zero_def)

lemma field_upd: "field (ob(k \<mapsto> v)) k' = (if k' = k then v else field ob k')"
  by (simp add: field_def)

lemma validatePayslip_rule:
  "''Total hours exceed maximum possible (168 hours/week)'' \<in> set (errors (validatePayslip B data)) \<longleftrightarrow>
     float_or_zero B (field data ''HOURS'') + float_or_zero B (field data ''OVERTIMEHOURS'') > Fin 168"
  by (simp add: validatePayslip_def push_if_def Let_def)

text \<open>
  C6. A payslip input of 100 hours and 70 overtime hours is rejected by the payslip
  validation with the 168-hour message, and one of 100 and 68 hours is accepted. The
  timesheet validation has no such rule: it accepts the input of 100 and 70 hours.
\<close>

theorem timesheet_validation_accepts_170_hours:
  "isValid (validateTimesheet B (week_inputs 100 70)) \<and>
   errors (validatePayslip B (week_inputs 100 70)) =
     [''Total hours exceed maximum possible (168 hours/week)''] \<and>
   isValid (validatePayslip B (week_inputs 100 68))"
  by (simp add: validateTimesheet_def validatePayslip_def push_if_def Let_def week_inputs_def
      field_def float_or_zero_def)

lemma validatePayslip_coerces:
  assumes "parseFloat B (field data k) = NaN" "k \<in> set numeric_inputs"
  shows "validatePayslip B (data(k \<mapsto> JNum (Fin 0))) = validatePayslip B data"
proof -
  have "float_or_zero B (field data k) = Fin 0"
    using assms(1) by (rule float_or_zero_NaN)
  then show ?thesis
    using assms(2)
    by (auto simp: validatePayslip_def numeric_inputs_def field_upd float_or_zero_zero Let_def)
qed

lemma validateTimesheet_coerces:
  assumes "parseFloat B (field data k) = NaN" "k \<in> set numeric_inputs"
  shows "validateTimesheet B (data(k \<mapsto> JNum (Fin 0))) = validateTimesheet B data"
proof -
  have "float_or_zero B (field data k) = Fin 0"
    using assms(1) by (rule float_or_zero_NaN)
  then show ?thesis
    using assms(2)
    by (auto simp: validateTimesheet_def numeric_inputs_def field_upd float_or_zero_zero Let_def)
qed

lemma calculatePayslip_result:
  fixes B :: builtins and data employee :: obj
  defines "hourlyRate \<equiv> parseFloat B (field employee ''HOURLY RATE'')"
    and "hours \<equiv> float_or_zero B (field data ''HOURS'')"
    and "minutes \<equiv> float_or_zero B (field data ''MINUTES'')"
    and "overtimeHours \<equiv> float_or_zero B (field data ''OVERTIMEHOURS'')"
    and "overtimeMinutes \<equiv> float_or_zero B (field data ''OVERTIMEMINUTES'')"
    and "leavePay \<equiv> float_or_zero B (field data ''LEAVE PAY'')"
    and "bonusPay \<equiv> float_or_zero B (field data ''BONUS PAY'')"
    and "otherIncome \<equiv> float_or_zero B (field data ''OTHERINCOME'')"
    and "otherDeductions \<equiv> float_or_zero B (field data ''OTHER DEDUCTIONS'')"
    and "loanDeduction \<equiv> float_or_zero B (field data ''LoanDeductionThisWeek'')"
    and "newLoan \<equiv> float_or_zero B (field data ''NewLoanThisWeek'')"
  defines "standardTime \<equiv> hours * hourlyRate + hourlyRate / Fin 60 * minutes"
    and "overtime \<equiv> overtimeHours * hourlyRate * Fin 1.5 + hourlyRate / Fin 60 * overtimeMinutes * Fin 1.5"
  defines "grossSalary \<equiv> standardTime + overtime + leavePay + bonusPay + otherIncome"
  defines "uif \<equiv> (if strict_eq (field employee ''EMPLOYMENT STATUS'') (JStr ''Permanent'')
                     then grossSalary * Fin 0.01 else Fin 0)"
  defines "totalDeductions \<equiv> uif + otherDeductions + loanDeduction"
  defines "netSalary \<equiv> grossSalary - totalDeductions"
  defines "paidToAccount \<equiv> netSalary - loanDeduction + newLoan"
  assumes found: "getEmployeeByName ss (field data ''EMPLOYEE NAME'') = Some (Some employee)"
  shows "\<exists>result. calculatePayslip B ss data = Some result \<and>
     field result ''HOURLYRATE'' = JNum hourlyRate \<and>
     field result ''STANDARDTIME'' = JNum standardTime \<and>
     field result ''OVERTIME'' = JNum overtime \<and>
     field result ''GROSSSALARY'' = JNum grossSalary \<and>
     field result ''UIF'' = JNum uif \<and>
     field result ''TOTALDEDUCTIONS'' = JNum totalDeductions \<and>
     field result ''NETTSALARY'' = JNum netSalary \<and>
     field result ''PaidToAccount'' = JNum paidToAccount"
  unfolding calculatePayslip_def found assms(1-18)
  by (simp add: Let_def field_def)

lemma calculatePayslip_throws:
  "calculatePayslip B ss data = None \<longleftrightarrow>
     getEmployeeByName ss (field data ''EMPLOYEE NAME'') = None \<or>
     getEmployeeByName ss (field data ''EMPLOYEE NAME'') = Some None"
  by (auto simp: calculatePayslip_def Let_def split: option.splits)

lemma calculatePayslip_coerces:
  assumes nan: "parseFloat B (field data k) = NaN" and k: "k \<in> set numeric_inputs"
    and d: "d \<in> set derived_fields"
  shows "map_option (\<lambda>r. field r d) (calculatePayslip B ss (data(k \<mapsto> JNum (Fin 0)))) =
         map_option (\<lambda>r. field r d) (calculatePayslip B ss data)"
proof -
  let ?data' = "data(k \<mapsto> JNum (Fin 0))"
  have z: "float_or_zero B (field data k) = Fin 0"
    using nan by (rule float_or_zero_NaN)
  have name: "field ?data' ''EMPLOYEE NAME'' = field data ''EMPLOYEE NAME''"
    using k by (auto simp: numeric_inputs_def field_upd)
  have inputs: "\<And>k'. float_or_zero B (field ?data' k') = float_or_zero B (field data k')"
    using z by (simp add: field_upd float_or_zero_zero)
  show ?thesis
  proof (cases "\<exists>employee. getEmployeeByName ss (field data ''EMPLOYEE NAME'') = Some (Some employee)")
    case False
    then have "calculatePayslip B ss data = None" "calculatePayslip B ss ?data' = None"
      unfolding calculatePayslip_throws name by (cases "getEmployeeByName ss (field data ''EMPLOYEE NAME'')"; auto)+
    then show ?thesis by simp
  next
    case True
    then obtain employee where
      found: "getEmployeeByName ss (field data ''EMPLOYEE NAME'') = Some (Some employee)" by blast
    have found': "getEmployeeByName ss (field ?data' ''EMPLOYEE NAME'') = Some (Some employee)"
      using found by (simp add: name)
    show ?thesis
      using calculatePayslip_result [OF found, of B] calculatePayslip_result [OF found', of B] d
      unfolding inputs
      by (auto simp: derived_fields_def)
  qed
qed

text \<open>
  C10. A numeric period input that is absent or does not read as a number (\<open>parseFloat\<close>
  yields \<open>NaN\<close>) counts as 0: both validations answer as they do for the input with that
  field set to 0, and every derived field of the calculation is the one computed with the
  field set to 0.
\<close>

theorem unreadable_numeric_input_counts_as_zero:
  assumes "parseFloat B (field data k) = NaN" and "k \<in> set numeric_inputs"
  shows "float_or_zero B (field data k) = Fin 0 \<and>
     validatePayslip B data = validatePayslip B (data(k \<mapsto> JNum (Fin 0))) \<and>
     validateTimesheet B data = validateTimesheet B (data(k \<mapsto> JNum (Fin 0))) \<and>
     (\<forall>d\<in>set derived_fields.
        map_option (\<lambda>r. field r d) (calculatePayslip B ss data) =
        map_option (\<lambda>r. field r d) (calculatePayslip B ss (data(k \<mapsto> JNum (Fin 0)))))"
  using assms
  by (simp add: float_or_zero_NaN validatePayslip_coerces validateTimesheet_coerces
      calculatePayslip_coerces)

theorem unreadable_numeric_input_counts_as_zero_witness:
  "parseFloat example_builtins (field ((week_inputs 0 5)(''HOURS'' \<mapsto> JStr ''n/a'')) ''HOURS'') = NaN \<and>
   ''HOURS'' \<in> set numeric_inputs \<and>
   isValid (validatePayslip example_builtins ((week_inputs 0 5)(''HOURS'' \<mapsto> JStr ''n/a''))) \<and>
   isValid (validateTimesheet example_builtins ((week_inputs 0 5)(''HOURS'' \<mapsto> JStr ''n/a''))) \<and>
   map_option (\<lambda>r. field r ''GROSSSALARY'')
     (calculatePayslip example_builtins example_payroll_store
        ((week_inputs 0 5)(''HOURS'' \<mapsto> JStr ''n/a''))) = Some (JNum (Fin 750))"
proof -
  let ?data = "(week_inputs 0 5)(''HOURS'' \<mapsto> JStr ''n/a'')"
  have nan: "parseFloat example_builtins (field ?data ''HOURS'') = NaN"
    by (simp add: field_def example_builtins_def)
  have k: "''HOURS'' \<in> set numeric_inputs" by (simp add: numeric_inputs_def)
  have d: "''GROSSSALARY'' \<in> set derived_fields" by (simp add: derived_fields_def)
  have same: "?data(''HOURS'' \<mapsto> JNum (Fin 0)) = week_inputs 0 5"
    by (rule ext) (simp add: week_inputs_def)
  have v1: "isValid (validatePayslip example_builtins (week_inputs 0 5))" by code_simp
  have v2: "isValid (validateTimesheet example_builtins (week_inputs 0 5))" by code_simp
  have v3: "map_option (\<lambda>r. field r ''GROSSSALARY'')
     (calculatePayslip example_builtins example_payroll_store (week_inputs 0 5)) = Some (JNum (Fin 750))"
    by code_simp
  show ?thesis
    using unreadable_numeric_input_counts_as_zero [OF nan k, of example_payroll_store] nan k d v1 v2 v3
    unfolding same by simp
qed

text \<open>
  C5. For every period input whose employee is found, the calculation returns the derived
  fields given by the formulas of the payroll, evaluated on the period inputs read as numbers
  (0 where unreadable) and on the hourly rate and employment status of the employee.
\<close>

theorem payslip_calculation:
  fixes B :: builtins and data employee :: obj
  defines "hourlyRate \<equiv> parseFloat B (field employee ''HOURLY RATE'')"
    and "hours \<equiv> float_or_zero B (field data ''HOURS'')"
    and "minutes \<equiv> float_or_zero B (field data ''MINUTES'')"
    and "overtimeHours \<equiv> float_or_zero B (field data ''OVERTIMEHOURS'')"
    and "overtimeMinutes \<equiv> float_or_zero B (field data ''OVERTIMEMINUTES'')"
    and "leavePay \<equiv> float_or_zero B (field data ''LEAVE PAY'')"
    and "bonusPay \<equiv> float_or_zero B (field data ''BONUS PAY'')"
    and "otherIncome \<equiv> float_or_zero B (field data ''OTHERINCOME'')"
    and "otherDeductions \<equiv> float_or_zero B (field data ''OTHER DEDUCTIONS'')"
    and "loanDeductionThisWeek \<equiv> float_or_zero B (field data ''LoanDeductionThisWeek'')"
    and "newLoanThisWeek \<equiv> float_or_zero B (field data ''NewLoanThisWeek'')"
  defines "standardTime \<equiv> hours * hourlyRate + hourlyRate / Fin 60 * minutes"
    and "overtime \<equiv> overtimeHours * hourlyRate * Fin 1.5 + hourlyRate / Fin 60 * overtimeMinutes * Fin 1.5"
  defines "grossSalary \<equiv> standardTime + overtime + leavePay + bonusPay + otherIncome"
  defines "uif \<equiv> (if strict_eq (field employee ''EMPLOYMENT STATUS'') (JStr ''Permanent'')
                     then grossSalary * Fin 0.01 else Fin 0)"
  defines "totalDeductions \<equiv> uif + otherDeductions + loanDeductionThisWeek"
  defines "netSalary \<equiv> grossSalary - totalDeductions"
  defines "paidToAccount \<equiv> netSalary - loanDeductionThisWeek + newLoanThisWeek"
  assumes "getEmployeeByName ss (field data ''EMPLOYEE NAME'') = Some (Some employee)"
  shows "\<exists>result. calculatePayslip B ss data = Some result \<and>
     field result ''STANDARDTIME'' = JNum standardTime \<and>
     field result ''OVERTIME'' = JNum overtime \<and>
     field result ''GROSSSALARY'' = JNum grossSalary \<and>
     field result ''UIF'' = JNum uif \<and>
     field result ''TOTALDEDUCTIONS'' = JNum totalDeductions \<and>
     field result ''NETTSALARY'' = JNum netSalary \<and>
     field result ''PaidToAccount'' = JNum paidToAccount"
  using calculatePayslip_result [OF assms(19), of B]
  unfolding assms(1-18) by blast

theorem payslip_calculation_witness:
  "getEmployeeByName example_payroll_store (field (week_inputs 40 5) ''EMPLOYEE NAME'') =
     Some (Some (row_object (headers example_employees) (rows example_employees ! 0))) \<and>
   (\<exists>result. calculatePayslip example_builtins example_payroll_store (week_inputs 40 5) = Some result \<and>
      field result ''STANDARDTIME'' = JNum (Fin 4000) \<and>
      field result ''OVERTIME'' = JNum (Fin 750) \<and>
      field result ''GROSSSALARY'' = JNum (Fin 4750) \<and>
      field result ''UIF'' = JNum (Fin 47.5) \<and>
      field result ''TOTALDEDUCTIONS'' = JNum (Fin 47.5) \<and>
      field result ''NETTSALARY'' = JNum (Fin 4702.5) \<and>
      field result ''PaidToAccount'' = JNum (Fin 4702.5))"
proof -
  let ?emp = "row_object (headers example_employees) (rows example_employees ! 0)"
  have found: "getEmployeeByName example_payroll_store (field (week_inputs 40 5) ''EMPLOYEE NAME'') =
     Some (Some ?emp)"
    by (simp add: getEmployeeByName_def getSheet_def example_payroll_store_def example_employees_def
        week_inputs_def field_def get_col_def Let_def)
  have rate: "parseFloat example_builtins (field ?emp ''HOURLY RATE'') = Fin 100" by code_simp
  have status: "strict_eq (field ?emp ''EMPLOYMENT STATUS'') (JStr ''Permanent'')" by code_simp
  have inputs:
    "float_or_zero example_builtins (field (week_inputs 40 5) ''HOURS'') = Fin 40"
    "float_or_zero example_builtins (field (week_inputs 40 5) ''MINUTES'') = Fin 0"
    "float_or_zero example_builtins (field (week_inputs 40 5) ''OVERTIMEHOURS'') = Fin 5"
    "float_or_zero example_builtins (field (week_inputs 40 5) ''OVERTIMEMINUTES'') = Fin 0"
    "float_or_zero example_builtins (field (week_inputs 40 5) ''LEAVE PAY'') = Fin 0"
    "float_or_zero example_builtins (field (week_inputs 40 5) ''BONUS PAY'') = Fin 0"
    "float_or_zero example_builtins (field (week_inputs 40 5) ''OTHERINCOME'') = Fin 0"
    "float_or_zero example_builtins (field (week_inputs 40 5) ''OTHER DEDUCTIONS'') = Fin 0"
    "float_or_zero example_builtins (field (week_inputs 40 5) ''LoanDeductionThisWeek'') = Fin 0"
    "float_or_zero example_builtins (field (week_inputs 40 5) ''NewLoanThisWeek'') = Fin 0"
    by (simp_all add: week_inputs_def field_def float_or_zero_def)
  show ?thesis
    using payslip_calculation [OF found, of example_builtins] found
    unfolding rate inputs using status by simp
qed

section \<open>Creating payslips\<close>

lemma createPayslip_other_sheet:
  "name \<noteq> ''salary'' \<Longrightarrow> snd (createPayslip B E data ss) name = ss name"
  by (simp add: createPayslip_def Let_def split: option.splits)

text \<open>
  C2. Creating a payslip never touches the loan ledger, and the function meant to synchronise
  the ledger with a payslip does nothing: the loans sheet after the call is the loans sheet
  before it, also for a payslip with a loan deduction of 100 and a new loan of 200, which is
  created with record number 7916.
\<close>

theorem createPayslip_records_no_loan_transaction:
  "getSheet (snd (createPayslip B E data ss)) ''loans'' = getSheet ss ''loans'' \<and>
   syncLoanForPayslip recordNumber ss = ss \<and>
   fst (createPayslip example_builtins example_env loan_week_inputs example_payroll_store) =
     Succeeded ''Payslip created successfully.'' (Some (JNum (Fin 7916))) \<and>
   getSheet (snd (createPayslip example_builtins example_env loan_week_inputs example_payroll_store))
     ''loans'' = Some example_ledger"
proof -
  have general: "\<And>B E data ss. getSheet (snd (createPayslip B E data ss)) ''loans'' = getSheet ss ''loans''"
    by (simp add: getSheet_def createPayslip_other_sheet)
  have "fst (createPayslip example_builtins example_env loan_week_inputs example_payroll_store) =
     Succeeded ''Payslip created successfully.'' (Some (JNum (Fin 7916)))"
    by code_simp
  moreover have "getSheet example_payroll_store ''loans'' = Some example_ledger"
    by (simp add: getSheet_def example_payroll_store_def)
  ultimately show ?thesis using general by (simp add: syncLoanForPayslip_def)
qed

text \<open>
  C3, as stated, fails where the last row does not hold the largest record number: on a
  salary sheet holding the record numbers 10 and 5, in this order, the created payslip is
  numbered 6, while the largest existing record number plus one is 11.
\<close>

theorem record_number_counterexample:
  "getSheet unordered_store ''salary'' = Some unordered_salary \<and>
   existingRecordNumbers unordered_salary = [10, 5] \<and>
   fst (createPayslip example_builtins example_env (week_inputs 40 5) unordered_store) =
     Succeeded ''Payslip created successfully.'' (Some (JNum (Fin 6))) \<and>
   spec_nextRecordNumber unordered_salary = 11"
proof -
  have "getSheet unordered_store ''salary'' = Some unordered_salary"
    by (simp add: getSheet_def unordered_store_def)
  moreover have "existingRecordNumbers unordered_salary = [10, 5]" by code_simp
  moreover have "fst (createPayslip example_builtins example_env (week_inputs 40 5) unordered_store) =
     Succeeded ''Payslip created successfully.'' (Some (JNum (Fin 6)))"
    by code_simp
  moreover have "spec_nextRecordNumber unordered_salary = 11" by code_simp
  ultimately show ?thesis by simp
qed

lemma indexOf_hd: "hs \<noteq> [] \<Longrightarrow> hd hs = name \<Longrightarrow> indexOf hs name = 0"
  by (cases hs) auto

lemma indexOf_not_first: "hs \<noteq> [] \<Longrightarrow> hd hs \<noteq> name \<Longrightarrow> indexOf hs name \<noteq> 0"
  by (cases hs) (auto simp: Let_def)

lemma array_set_first:
  "i \<noteq> 0 \<Longrightarrow> elems (array_set a i v) ! 0 = elems a ! 0 \<and>
     length (elems (array_set a i v)) = length (elems a)"
  by (auto simp: array_set_def)

lemma array_set_at_first:
  "elems a \<noteq> [] \<Longrightarrow> elems (array_set a 0 v) ! 0 = v \<and>
     length (elems (array_set a 0 v)) = length (elems a)"
  by (auto simp: array_set_def)

lemma getValue_last_row:
  assumes "headers sh \<noteq> []" "rows sh \<noteq> []"
  shows "getValue sh (getLastRow sh) 1 = get_col (last (rows sh)) 0"
  using assms by (simp add: getValue_def getLastRow_def last_conv_nth)

lemma createPayslip_step:
  assumes sh: "getSheet ss ''salary'' = Some sh"
    and hs: "headers sh \<noteq> []" "hd (headers sh) = ''RECORDNUMBER''"
    and rs: "rows sh \<noteq> []"
    and start: "js_or (get_col (last (rows sh)) 0) (JNum (Fin 7915)) = JNum (Fin n)"
  shows "(\<exists>msg row. createPayslip B E data ss =
            (Succeeded msg (Some (JNum (Fin (n + 1)))), ss(''salary'' \<mapsto> sh\<lparr>rows := rows sh @ [row]\<rparr>)) \<and>
            get_col row 0 = JNum (Fin (n + 1))) \<or>
         ((\<forall>msg r. fst (createPayslip B E data ss) \<noteq> Succeeded msg r) \<and>
          snd (createPayslip B E data ss) = ss)"
proof (cases "isValid (validatePayslip B data) \<and> calculatePayslip B ss data \<noteq> None")
  case False
  then show ?thesis
    by (auto simp: createPayslip_def Let_def)
next
  case True
  then obtain calculatedData where calc: "calculatePayslip B ss data = Some calculatedData"
    and valid: "isValid (validatePayslip B data)" by auto
  let ?hs = "headers sh"
  let ?v = "JNum (Fin (n + 1))"
  let ?row0 = "\<lparr>elems = map (\<lambda>header. js_or (js_or (field calculatedData header) (field data header)) JNull) ?hs,
               minus_one = JUndefined\<rparr>"
  let ?row1 = "array_set ?row0 0 ?v"
  let ?row2 = "array_set ?row1 (indexOf ?hs ''TIMESTAMP'') (JDate (now E))"
  let ?row3 = "array_set ?row2 (indexOf ?hs ''USER'') (JStr (currentUser E))"
  have hdr: "getHeaderRow sh = Some ?hs"
    using hs by (simp add: getHeaderRow_def getLastColumn_def)
  have lastnum: "js_or (getValue sh (getLastRow sh) 1) (JNum (Fin 7915)) = JNum (Fin n)"
    using getValue_last_row [OF hs(1) rs] start by simp
  have plus: "js_plus B (JNum (Fin n)) (JNum (Fin 1)) = ?v"
    by (simp add: js_plus_def)
  have idx: "indexOf ?hs ''RECORDNUMBER'' = 0"
    using hs by (simp add: indexOf_hd)
  have ti: "indexOf ?hs ''TIMESTAMP'' \<noteq> 0" and ui: "indexOf ?hs ''USER'' \<noteq> 0"
    using hs by (simp_all add: indexOf_not_first)
  have e0: "elems ?row0 \<noteq> []" using hs by simp
  have r1: "elems ?row1 ! 0 = ?v" "length (elems ?row1) = length (elems ?row0)"
    using array_set_at_first [OF e0, of ?v] by simp_all
  have r2: "elems ?row2 ! 0 = ?v" "length (elems ?row2) = length (elems ?row0)"
    using array_set_first [OF ti, of ?row1 "JDate (now E)"] r1 by simp_all
  have r3: "elems ?row3 ! 0 = ?v" "length (elems ?row3) = length (elems ?row0)"
    using array_set_first [OF ui, of ?row2 "JStr (currentUser E)"] r2 by simp_all
  have len3: "0 < length (elems ?row3)" using r3(2) e0 by simp
  have get: "array_get ?row3 0 = ?v"
    using r3(1) len3 by (simp add: array_get_def)
  have cell: "get_col (map to_cell (elems ?row3)) 0 = ?v"
    using r3(1) len3 by (simp add: get_col_def)
  have "createPayslip B E data ss =
      (Succeeded ''Payslip created successfully.'' (Some ?v),
       ss(''salary'' \<mapsto> sh\<lparr>rows := rows sh @ [map to_cell (elems ?row3)]\<rparr>))"
    using valid calc sh hdr lastnum plus idx get
    by (simp add: createPayslip_def Let_def appendRow_def)
  then show ?thesis using cell by blast
qed

lemma assignedNumbers_failed:
  "\<forall>msg n. r \<noteq> Succeeded msg n \<Longrightarrow> assignedNumbers (r # rs) = assignedNumbers rs"
  by (cases r) auto

lemma createPayslips_length:
  "length (assignedNumbers (fst (createPayslips B calls ss))) \<le> length calls"
proof (induction calls arbitrary: ss)
  case Nil
  then show ?case by simp
next
  case (Cons call calls)
  let ?first = "createPayslip B (fst call) (snd call) ss"
  have "length (assignedNumbers (fst ?first # fst (createPayslips B calls (snd ?first)))) \<le>
        Suc (length (assignedNumbers (fst (createPayslips B calls (snd ?first)))))"
  proof (cases "fst ?first")
    case (Succeeded msg r)
    then show ?thesis by (cases r) simp_all
  qed simp_all
  then show ?case
    using Cons [of "snd ?first"] by (simp add: Let_def)
qed

lemma createPayslips_numbers:
  "getSheet ss ''salary'' = Some sh \<Longrightarrow> headers sh \<noteq> [] \<Longrightarrow> hd (headers sh) = ''RECORDNUMBER'' \<Longrightarrow>
   rows sh \<noteq> [] \<Longrightarrow>
   js_or (get_col (last (rows sh)) 0) (JNum (Fin 7915)) = JNum (Fin (real k)) \<Longrightarrow>
   assignedNumbers (fst (createPayslips B calls ss)) =
     map (\<lambda>j. JNum (Fin (real (k + 1 + j))))
       [0..<length (assignedNumbers (fst (createPayslips B calls ss)))]"
proof (induction calls arbitrary: ss sh k)
  case Nil
  then show ?case by simp
next
  case (Cons call calls)
  from createPayslip_step [OF Cons.prems(1-5), of B "fst call" "snd call"]
  show ?case
  proof (elim disjE exE conjE)
    fix msg row
    assume first: "createPayslip B (fst call) (snd call) ss =
        (Succeeded msg (Some (JNum (Fin (real k + 1)))), ss(''salary'' \<mapsto> sh\<lparr>rows := rows sh @ [row]\<rparr>))"
      and cell: "get_col row 0 = JNum (Fin (real k + 1))"
    let ?ss1 = "ss(''salary'' \<mapsto> sh\<lparr>rows := rows sh @ [row]\<rparr>)"
    let ?rest = "assignedNumbers (fst (createPayslips B calls ?ss1))"
    have ih: "?rest = map (\<lambda>j. JNum (Fin (real (Suc k + 1 + j)))) [0..<length ?rest]"
    proof (rule Cons.IH)
      show "getSheet ?ss1 ''salary'' = Some (sh\<lparr>rows := rows sh @ [row]\<rparr>)"
        by (simp add: getSheet_def)
      show "headers (sh\<lparr>rows := rows sh @ [row]\<rparr>) \<noteq> []" using Cons.prems by simp
      show "hd (headers (sh\<lparr>rows := rows sh @ [row]\<rparr>)) = ''RECORDNUMBER''" using Cons.prems by simp
      show "rows (sh\<lparr>rows := rows sh @ [row]\<rparr>) \<noteq> []" by simp
      have "real k + 1 \<noteq> 0" by (metis of_nat_Suc of_nat_eq_0_iff nat.distinct(1) add.commute)
      then show "js_or (get_col (last (rows (sh\<lparr>rows := rows sh @ [row]\<rparr>))) 0) (JNum (Fin 7915)) =
          JNum (Fin (real (Suc k)))"
        using cell by (simp add: js_or_def add.commute)
    qed
    have all: "assignedNumbers (fst (createPayslips B (call # calls) ss)) =
        JNum (Fin (real (k + 1))) # ?rest"
      using first by (simp add: Let_def add.commute)
    have "map (\<lambda>j. JNum (Fin (real (k + 1 + j)))) [0..<Suc (length ?rest)] =
          JNum (Fin (real (k + 1))) # map (\<lambda>j. JNum (Fin (real (Suc k + 1 + j)))) [0..<length ?rest]"
      by (simp add: map_upt_Suc del: upt_Suc)
    then show ?thesis
      using ih all by simp
  next
    assume failed: "\<forall>msg r. fst (createPayslip B (fst call) (snd call) ss) \<noteq> Succeeded msg r"
      and same: "snd (createPayslip B (fst call) (snd call) ss) = ss"
    have "assignedNumbers (fst (createPayslips B (call # calls) ss)) =
          assignedNumbers (fst (createPayslips B calls ss))"
      using failed same by (simp add: Let_def assignedNumbers_failed)
    then show ?thesis
      using Cons.IH [OF Cons.prems] by simp
  qed
qed

lemma finite_numbers_mem: "JNum (Fin x) \<in> set vs \<Longrightarrow> x \<in> set (finite_numbers vs)"
  by (induction vs rule: finite_numbers.induct) auto

lemma last_record_number_is_max:
  assumes hs: "headers sh \<noteq> []" "hd (headers sh) = ''RECORDNUMBER''"
    and rs: "rows sh \<noteq> []"
    and last: "get_col (last (rows sh)) 0 = JNum (Fin n)"
    and largest: "\<forall>x\<in>set (existingRecordNumbers sh). x \<le> n"
  shows "spec_nextRecordNumber sh = n + 1"
proof -
  have idx: "indexOf (headers sh) ''RECORDNUMBER'' = 0" using hs by (simp add: indexOf_hd)
  have "JNum (Fin n) \<in> set (map (\<lambda>row. get_col row 0) (rows sh))"
    using rs last by (metis image_eqI last_in_set set_map)
  then have mem: "n \<in> set (existingRecordNumbers sh)"
    by (simp add: existingRecordNumbers_def idx finite_numbers_mem del: set_map)
  then have "Max (set (existingRecordNumbers sh)) = n"
    using largest by (intro Max_eqI) auto
  then show ?thesis
    using mem by (auto simp: spec_nextRecordNumber_def)
qed

text \<open>
  C3, as amended. Take a salary sheet whose first column is the record number column and that
  holds at least one row, and a run of creations that keeps the record numbers, whole
  numbers, within \<open>2 ^ 53\<close>. If the last row holds in that column a positive whole number that
  is the largest existing record number, the next record number in the words of the
  specification is that number plus one; if no record number exists and the cell of the last
  row is empty, it is the floor 7915 plus one. In both cases the successful calls of the run
  are given exactly that number and the numbers that follow it, one by one: increasing,
  distinct and without gaps.
\<close>

theorem record_numbers_continue_last_row:
  assumes "getSheet ss ''salary'' = Some sh"
    and "headers sh \<noteq> []" and "hd (headers sh) = ''RECORDNUMBER''"
    and "rows sh \<noteq> []"
    and "(get_col (last (rows sh)) 0 = JNum (Fin (real k)) \<and> 0 < k \<and>
          (\<forall>x\<in>set (existingRecordNumbers sh). x \<le> real k)) \<or>
         (\<not> truthy (get_col (last (rows sh)) 0) \<and> existingRecordNumbers sh = [] \<and> k = 7915)"
    and "k + length calls \<le> 2 ^ 53"
  shows "spec_nextRecordNumber sh = real k + 1 \<and>
     length (assignedNumbers (fst (createPayslips B calls ss))) \<le> length calls \<and>
     assignedNumbers (fst (createPayslips B calls ss)) =
       map (\<lambda>j. JNum (Fin (real (k + 1 + j))))
         [0..<length (assignedNumbers (fst (createPayslips B calls ss)))]"
proof -
  have start: "js_or (get_col (last (rows sh)) 0) (JNum (Fin 7915)) = JNum (Fin (real k))"
    using assms(5) by (auto simp: js_or_def)
  have spec: "spec_nextRecordNumber sh = real k + 1"
    using assms(5)
  proof (elim disjE conjE)
    assume "get_col (last (rows sh)) 0 = JNum (Fin (real k))"
      and "\<forall>x\<in>set (existingRecordNumbers sh). x \<le> real k"
    then show ?thesis
      using last_record_number_is_max [OF assms(2,3,4)] by blast
  next
    assume "existingRecordNumbers sh = []" and "k = 7915"
    then show ?thesis by (simp add: spec_nextRecordNumber_def)
  qed
  show ?thesis
    using spec createPayslips_length [of B calls ss]
      createPayslips_numbers [OF assms(1-4) start, of B calls]
    by simp
qed

theorem record_numbers_continue_last_row_witness:
  "getSheet example_payroll_store ''salary'' = Some example_salary \<and>
   hd (headers example_salary) = ''RECORDNUMBER'' \<and>
   get_col (last (rows example_salary)) 0 = JNum (Fin 7915) \<and>
   list_all (\<lambda>x. x \<le> 7915) (existingRecordNumbers example_salary) \<and>
   spec_nextRecordNumber example_salary = 7916 \<and>
   assignedNumbers (fst (createPayslips example_builtins
       [(example_env, week_inputs 40 5), (example_env, Map.empty), (example_env, loan_week_inputs)]
       example_payroll_store)) = [JNum (Fin 7916), JNum (Fin 7917)] \<and>
   getSheet unnumbered_store ''salary'' = Some unnumbered_salary \<and>
   get_col (last (rows unnumbered_salary)) 0 = JStr [] \<and>
   existingRecordNumbers unnumbered_salary = [] \<and>
   spec_nextRecordNumber unnumbered_salary = 7916 \<and>
   assignedNumbers (fst (createPayslips example_builtins
       [(example_env, week_inputs 40 5), (example_env, Map.empty), (example_env, loan_week_inputs)]
       unnumbered_store)) = [JNum (Fin 7916), JNum (Fin 7917)]"
proof -
  let ?calls = "[(example_env, week_inputs 40 5), (example_env, Map.empty), (example_env, loan_week_inputs)]"
  have up: "[0..<2] = [0, Suc 0]" by (simp add: upt_rec)
  have bound: "7915 + length ?calls \<le> 2 ^ 53" by simp
  have a1: "getSheet example_payroll_store ''salary'' = Some example_salary"
    by (simp add: getSheet_def example_payroll_store_def)
  have a2: "headers example_salary \<noteq> []" by (simp add: example_salary_def)
  have a3: "hd (headers example_salary) = ''RECORDNUMBER''" by (simp add: example_salary_def)
  have a4: "rows example_salary \<noteq> []" by (simp add: example_salary_def)
  have a5: "get_col (last (rows example_salary)) 0 = JNum (Fin 7915)"
    by (simp add: example_salary_def get_col_def)
  have a7l: "list_all (\<lambda>x. x \<le> 7915) (existingRecordNumbers example_salary)" by code_simp
  then have a7: "\<forall>x\<in>set (existingRecordNumbers example_salary). x \<le> 7915"
    by (simp add: list_all_iff)
  have hyp1: "(get_col (last (rows example_salary)) 0 = JNum (Fin (real 7915)) \<and> 0 < (7915::nat) \<and>
          (\<forall>x\<in>set (existingRecordNumbers example_salary). x \<le> real 7915)) \<or>
         (\<not> truthy (get_col (last (rows example_salary)) 0) \<and>
          existingRecordNumbers example_salary = [] \<and> (7915::nat) = 7915)"
    using a5 a7 by simp
  have len1: "length (assignedNumbers (fst (createPayslips example_builtins ?calls example_payroll_store))) = 2"
    by code_simp
  from record_numbers_continue_last_row [OF a1 a2 a3 a4 hyp1 bound, of example_builtins]
  have first: "spec_nextRecordNumber example_salary = 7916 \<and>
     assignedNumbers (fst (createPayslips example_builtins ?calls example_payroll_store)) =
       [JNum (Fin 7916), JNum (Fin 7917)]"
    unfolding len1 up by simp
  have b1: "getSheet unnumbered_store ''salary'' = Some unnumbered_salary"
    by (simp add: getSheet_def unnumbered_store_def)
  have b2: "headers unnumbered_salary \<noteq> []" by (simp add: unnumbered_salary_def)
  have b3: "hd (headers unnumbered_salary) = ''RECORDNUMBER''" by (simp add: unnumbered_salary_def)
  have b4: "rows unnumbered_salary \<noteq> []" by (simp add: unnumbered_salary_def)
  have b5: "get_col (last (rows unnumbered_salary)) 0 = JStr []"
    by (simp add: unnumbered_salary_def get_col_def)
  have b6: "existingRecordNumbers unnumbered_salary = []" by code_simp
  have hyp2: "(get_col (last (rows unnumbered_salary)) 0 = JNum (Fin (real 7915)) \<and> 0 < (7915::nat) \<and>
          (\<forall>x\<in>set (existingRecordNumbers unnumbered_salary). x \<le> real 7915)) \<or>
         (\<not> truthy (get_col (last (rows unnumbered_salary)) 0) \<and>
          existingRecordNumbers unnumbered_salary = [] \<and> (7915::nat) = 7915)"
    using b5 b6 by simp
  have len2: "length (assignedNumbers (fst (createPayslips example_builtins ?calls unnumbered_store))) = 2"
    by code_simp
  from record_numbers_continue_last_row [OF b1 b2 b3 b4 hyp2 bound, of example_builtins]
  have second: "spec_nextRecordNumber unnumbered_salary = 7916 \<and>
     assignedNumbers (fst (createPayslips example_builtins ?calls unnumbered_store)) =
       [JNum (Fin 7916), JNum (Fin 7917)]"
    unfolding len2 up by simp
  show ?thesis using a1 a3 a5 a7l first b1 b5 b6 second by simp
qed

text \<open>
  On a salary sheet that holds the title row only, the cell read as the last record number is
  the title of the first column, a non-empty string: the fallback \<open>|| 7915\<close> of the code is not
  taken, and what is returned as the record number is the title with the string form of 1
  appended, not 7916. The code misses here what its own fallback is written for.
\<close>

lemma first_payslip_on_titles_only:
  assumes sh: "getSheet ss ''salary'' = Some sh"
    and hs: "headers sh \<noteq> []" "hd (headers sh) = ''RECORDNUMBER''"
    and rs: "rows sh = []"
    and ok: "createPayslip B E data ss = (Succeeded msg r, ss')"
  shows "r = Some (JStr (''RECORDNUMBER'' @ num_toString B (Fin 1)))"
proof -
  from ok obtain calculatedData where calc: "calculatePayslip B ss data = Some calculatedData"
    and valid: "isValid (validatePayslip B data)"
    by (auto simp: createPayslip_def Let_def split: if_splits option.splits)
  let ?hs = "headers sh"
  let ?v = "JStr (''RECORDNUMBER'' @ num_toString B (Fin 1))"
  let ?row0 = "\<lparr>elems = map (\<lambda>header. js_or (js_or (field calculatedData header) (field data header)) JNull) ?hs,
               minus_one = JUndefined\<rparr>"
  let ?row1 = "array_set ?row0 0 ?v"
  let ?row2 = "array_set ?row1 (indexOf ?hs ''TIMESTAMP'') (JDate (now E))"
  let ?row3 = "array_set ?row2 (indexOf ?hs ''USER'') (JStr (currentUser E))"
  have hdr: "getHeaderRow sh = Some ?hs"
    using hs by (simp add: getHeaderRow_def getLastColumn_def)
  have title: "getValue sh (getLastRow sh) 1 = JStr ''RECORDNUMBER''"
    using hs rs by (cases "headers sh") (simp_all add: getValue_def getLastRow_def)
  have lastnum: "js_or (getValue sh (getLastRow sh) 1) (JNum (Fin 7915)) = JStr ''RECORDNUMBER''"
    unfolding title by (simp add: js_or_def)
  have plus: "js_plus B (JStr ''RECORDNUMBER'') (JNum (Fin 1)) = ?v"
    by (simp add: js_plus_def)
  have idx: "indexOf ?hs ''RECORDNUMBER'' = 0"
    using hs by (simp add: indexOf_hd)
  have ti: "indexOf ?hs ''TIMESTAMP'' \<noteq> 0" and ui: "indexOf ?hs ''USER'' \<noteq> 0"
    using hs by (simp_all add: indexOf_not_first)
  have e0: "elems ?row0 \<noteq> []" using hs by simp
  have r1: "elems ?row1 ! 0 = ?v" "length (elems ?row1) = length (elems ?row0)"
    using array_set_at_first [OF e0, of ?v] by simp_all
  have r2: "elems ?row2 ! 0 = ?v" "length (elems ?row2) = length (elems ?row0)"
    using array_set_first [OF ti, of ?row1 "JDate (now E)"] r1 by simp_all
  have r3: "elems ?row3 ! 0 = ?v" "length (elems ?row3) = length (elems ?row0)"
    using array_set_first [OF ui, of ?row2 "JStr (currentUser E)"] r2 by simp_all
  have len3: "0 < length (elems ?row3)" using r3(2) e0 by simp
  have get: "array_get ?row3 0 = ?v"
    using r3(1) len3 by (simp add: array_get_def)
  have "createPayslip B E data ss =
      (Succeeded ''Payslip created successfully.'' (Some ?v),
       ss(''salary'' \<mapsto> sh\<lparr>rows := rows sh @ [map to_cell (elems ?row3)]\<rparr>))"
    using valid calc sh hdr lastnum plus idx get
    by (simp add: createPayslip_def Let_def appendRow_def)
  then show ?thesis using ok by simp
qed

end
